theory Spec2Isabelle
  imports Main "HOL-Library.Sublist" "HOL-Library.Log_Nat"
begin

section \<open>The alert watcher of a blue/green deployment\<close>

text \<open>
  A shallow embedding of \<^verbatim>\<open>watcher/alert_watcher.py\<close>. The module keeps its state in
  globals and talks to the outside through \<^verbatim>\<open>time.time\<close>, \<^verbatim>\<open>requests.post\<close> and
  \<^verbatim>\<open>print\<close>. Here the globals are a record that every function takes and returns, the
  clock and the webhook are an explicit \<open>world\<close>, and what is printed or posted is
  appended to a trace.
\<close>

subsection \<open>Text\<close>

text \<open>
  A Python \<^verbatim>\<open>str\<close> is a sequence of Unicode code points, so a line is a list of natural
  numbers; \<open>py\<close> turns an ASCII literal of the source into such a list.
\<close>

type_synonym codepoint = nat
type_synonym pystr = "codepoint list"

definition py :: "string \<Rightarrow> pystr" where
  "py s = map of_char s"

text \<open>
  The regular expressions use \<^verbatim>\<open>\s\<close> and \<^verbatim>\<open>\d\<close>, which on \<^verbatim>\<open>str\<close> patterns follow the
  Unicode database of the interpreter. Below 128 the two classes are fixed: white space is
  TAB, LF, VT, FF, CR, the separators 28 to 31 and the blank; the decimal digits are
  \<^verbatim>\<open>0\<close> to \<^verbatim>\<open>9\<close>. From 128 on the tables belong to the interpreter and not to this
  repository, so they are a parameter: \<open>uni_space\<close> says which code points are white space
  and \<open>uni_decimal\<close> gives the value of a decimal digit.
\<close>

record ucd =
  uni_space :: "codepoint \<Rightarrow> bool"
  uni_decimal :: "codepoint \<Rightarrow> nat option"

definition isspace :: "ucd \<Rightarrow> codepoint \<Rightarrow> bool" where
  "isspace U c =
     (if c < 128 then (9 \<le> c \<and> c \<le> 13) \<or> (28 \<le> c \<and> c \<le> 32) else uni_space U c)"

definition decimal :: "ucd \<Rightarrow> codepoint \<Rightarrow> nat option" where
  "decimal U c =
     (if c < 128 then (if 48 \<le> c \<and> c \<le> 57 then Some (c - 48) else None)
      else uni_decimal U c)"

definition isdigit :: "ucd \<Rightarrow> codepoint \<Rightarrow> bool" where
  "isdigit U c = (decimal U c \<noteq> None)"

text \<open>The tables of an interpreter that knows ASCII only; used to run the model.\<close>

definition ascii_ucd :: ucd where
  "ascii_ucd = \<lparr>uni_space = (\<lambda>c. False), uni_decimal = (\<lambda>c. None)\<rparr>"

subsection \<open>Errors\<close>

datatype error = ValueError

subsection \<open>The regular expressions\<close>

text \<open>
  \<^verbatim>\<open>[^\s]+\<close> is greedy and nothing follows it in the patterns, so the group is the longest
  run of characters that are not white space.
\<close>

definition nonspace_run :: "ucd \<Rightarrow> pystr \<Rightarrow> pystr" where
  "nonspace_run U s = takeWhile (\<lambda>c. \<not> isspace U c) s"

text \<open>
  \<^verbatim>\<open>re.compile(key + '(?P<g>[^\s]+)').search(line)\<close>: the leftmost position where \<open>key\<close>
  is followed by at least one character that is not white space; the result is the group,
  \<open>None\<close> when there is no match.
\<close>

fun search_token :: "ucd \<Rightarrow> pystr \<Rightarrow> pystr \<Rightarrow> pystr option" where
  "search_token U key [] = None"
| "search_token U key (c # cs) =
     (if prefix key (c # cs) \<and> nonspace_run U (drop (length key) (c # cs)) \<noteq> []
      then Some (nonspace_run U (drop (length key) (c # cs)))
      else search_token U key cs)"

definition RE_POOL :: "ucd \<Rightarrow> pystr \<Rightarrow> pystr option" where
  "RE_POOL U line = search_token U (py ''pool='') line"

definition RE_RELEASE :: "ucd \<Rightarrow> pystr \<Rightarrow> pystr option" where
  "RE_RELEASE U line = search_token U (py ''release='') line"

definition RE_UPSTREAM_STATUS :: "ucd \<Rightarrow> pystr \<Rightarrow> pystr option" where
  "RE_UPSTREAM_STATUS U line = search_token U (py ''upstream_status='') line"

definition RE_UPSTREAM_ADDR :: "ucd \<Rightarrow> pystr \<Rightarrow> pystr option" where
  "RE_UPSTREAM_ADDR U line = search_token U (py ''upstream_addr='') line"

text \<open>
  \<^verbatim>\<open>re.compile(r'\s(?P<status>\d{3})\s').search(line)\<close>: the leftmost five characters that
  are a white space, three decimal digits and a white space; the group is the digits.
\<close>

fun RE_STATUS :: "ucd \<Rightarrow> pystr \<Rightarrow> pystr option" where
  "RE_STATUS U (a # b # c # d # e # rest) =
     (if isspace U a \<and> isdigit U b \<and> isdigit U c \<and> isdigit U d \<and> isspace U e
      then Some [b, c, d]
      else RE_STATUS U (b # c # d # e # rest))"
| "RE_STATUS U line = None"

text \<open>
  \<^verbatim>\<open>int(s)\<close> on a string of decimal digits. (The builtin also accepts a sign, underscores
  and surrounding white space; its one call here gets the three characters that \<^verbatim>\<open>\d{3}\<close>
  matched.)
\<close>

fun digits_value :: "ucd \<Rightarrow> int \<Rightarrow> pystr \<Rightarrow> int option" where
  "digits_value U acc [] = Some acc"
| "digits_value U acc (c # cs) =
     (case decimal U c of
        None \<Rightarrow> None
      | Some d \<Rightarrow> digits_value U (10 * acc + int d) cs)"

definition py_int :: "ucd \<Rightarrow> pystr \<Rightarrow> error + int" where
  "py_int U s =
     (if s = [] then Inl ValueError
      else case digits_value U 0 s of None \<Rightarrow> Inl ValueError | Some v \<Rightarrow> Inr v)"

subsection \<open>Field extraction\<close>

text \<open>The local variables that the first part of \<^verbatim>\<open>handle_line\<close> computes (lines 73 to 86).\<close>

record log_record =
  pool :: pystr
  release :: pystr
  status :: int
  upstream_status :: pystr
  upstream_addr :: pystr

definition extract_fields :: "ucd \<Rightarrow> pystr \<Rightarrow> log_record" where
  "extract_fields U line =
     \<lparr>pool = (case RE_POOL U line of Some g \<Rightarrow> g | None \<Rightarrow> py ''unknown''),
      release = (case RE_RELEASE U line of Some g \<Rightarrow> g | None \<Rightarrow> py ''unknown''),
      status =
        (case RE_STATUS U line of
           None \<Rightarrow> 0
         | Some g \<Rightarrow> (case py_int U g of Inr v \<Rightarrow> v | Inl exn \<Rightarrow> 0)),
      upstream_status = (case RE_UPSTREAM_STATUS U line of Some g \<Rightarrow> g | None \<Rightarrow> []),
      upstream_addr = (case RE_UPSTREAM_ADDR U line of Some g \<Rightarrow> g | None \<Rightarrow> [])\<rparr>"

subsection \<open>Floating point\<close>

text \<open>
  A finite \<^verbatim>\<open>float\<close> is the rational number it stands for. \<open>round_double\<close> rounds a
  rational to the nearest binary64 number, ties to the even significand: below
  \<open>2 ^ - 1022\<close> the spacing is that of the subnormal numbers. Overflow is left out: the
  numbers rounded in this program are at most 100.
\<close>

definition pow2 :: "int \<Rightarrow> rat" where
  "pow2 e = (if 0 \<le> e then 2 ^ nat e else 1 / 2 ^ nat (- e))"

definition round_half_even :: "rat \<Rightarrow> int" where
  "round_half_even x =
     (let f = \<lfloor>x\<rfloor>; r = x - of_int f
      in if r < 1 / 2 then f
         else if 1 / 2 < r then f + 1
         else if even f then f else f + 1)"

text \<open>The exponent \<open>\<lfloor>log\<^sub>2 x\<rfloor>\<close> of a positive rational, from the bit lengths of its fraction.\<close>

definition ilog2 :: "rat \<Rightarrow> int" where
  "ilog2 x =
     (let d = bitlen (fst (quotient_of x)) - bitlen (snd (quotient_of x))
      in if pow2 d \<le> x then d else d - 1)"

definition round_double :: "rat \<Rightarrow> rat" where
  "round_double x =
     (if x = 0 then 0
      else let e = max (ilog2 \<bar>x\<bar>) (- 1022) - 52
           in of_int (round_half_even (x / pow2 e)) * pow2 e)"

text \<open>
  \<^verbatim>\<open>a / b\<close> on two \<^verbatim>\<open>int\<close>s is the correctly rounded quotient (it raises
  ZeroDivisionError for \<^verbatim>\<open>b == 0\<close>; the one division of this program is behind the test
  \<^verbatim>\<open>len(rolling_statuses) < 10\<close>). \<^verbatim>\<open>x * 100\<close> converts the \<^verbatim>\<open>int\<close> exactly and rounds
  the product.
\<close>

definition int_truediv :: "int \<Rightarrow> int \<Rightarrow> rat" where
  "int_truediv a b = round_double (of_int a / of_int b)"

definition float_mul :: "rat \<Rightarrow> rat \<Rightarrow> rat" where
  "float_mul x y = round_double (x * y)"

text \<open>
  \<^verbatim>\<open>float(os.getenv(...))\<close> can also be an infinity or a NaN; \<open>float_ge x y\<close> is
  \<^verbatim>\<open>x >= y\<close> for a finite \<open>x\<close>.
\<close>

datatype pyfloat = Finite rat | PosInf | NegInf | NaN

fun float_ge :: "rat \<Rightarrow> pyfloat \<Rightarrow> bool" where
  "float_ge x (Finite y) = (y \<le> x)"
| "float_ge x PosInf = False"
| "float_ge x NegInf = True"
| "float_ge x NaN = False"

subsection \<open>Configuration, world and state\<close>

text \<open>The module constants read from the environment (lines 19 to 23).\<close>

record config =
  SLACK_WEBHOOK_URL :: "string option"
  ERROR_RATE_THRESHOLD :: pyfloat
  WINDOW_SIZE :: int
  ALERT_COOLDOWN_SEC :: int
  MAINTENANCE_MODE :: bool

text \<open>
  The outside: \<open>clock w n\<close> is what the \<open>n\<close>-th call of \<^verbatim>\<open>now_ts\<close> returns, and
  \<open>transport w n\<close> says whether the \<open>n\<close>-th \<^verbatim>\<open>requests.post\<close> goes through
  (\<^verbatim>\<open>raise_for_status\<close> included) or raises.
\<close>

record world =
  clock :: "nat \<Rightarrow> int"
  transport :: "nat \<Rightarrow> bool"

text \<open>
  The text of an alert is an f-string; the model keeps the values it interpolates (the
  rate is printed with one decimal). The time stamp \<^verbatim>\<open>datetime.utcnow()\<close> of the text is
  not modelled.
\<close>

datatype message =
    FailoverMsg pystr pystr pystr pystr
  | ErrorRateMsg rat nat "pystr option"

text \<open>
  What the program does to the outside, one entry for each way through \<^verbatim>\<open>post_slack\<close>
  or a cooldown branch:
  \<^item> \<open>MaintenanceSuppressed m\<close>: prints \<^verbatim>\<open>Maintenance mode ON, suppressing alert:\<close> and \<open>m\<close>;
  \<^item> \<open>NoWebhookSkipped m\<close>: prints \<^verbatim>\<open>No SLACK_WEBHOOK_URL configured, skipping alert:\<close> and \<open>m\<close>;
  \<^item> \<open>Posted m\<close>: \<^verbatim>\<open>requests.post\<close> was called with \<open>m\<close> and went through, prints
    \<^verbatim>\<open>Posted alert to Slack\<close>;
  \<^item> \<open>PostFailed m\<close>: \<^verbatim>\<open>requests.post\<close> was called with \<open>m\<close> and raised, prints
    \<^verbatim>\<open>Failed to post to Slack:\<close>;
  \<^item> \<open>FailoverCooldown\<close>: prints \<^verbatim>\<open>Failover detected but in cooldown, skipping\<close>;
  \<^item> \<open>ErrorRateCooldown\<close>: prints \<^verbatim>\<open>Error-rate alert in cooldown, skipping\<close>.
\<close>

datatype effect =
    MaintenanceSuppressed message
  | NoWebhookSkipped message
  | Posted message
  | PostFailed message
  | FailoverCooldown
  | ErrorRateCooldown

fun is_post :: "effect \<Rightarrow> bool" where
  "is_post (Posted m) = True"
| "is_post (PostFailed m) = True"
| "is_post e = False"

definition post_calls :: "effect list \<Rightarrow> nat" where
  "post_calls tr = length (filter is_post tr)"

text \<open>\<^verbatim>\<open>collections.deque(maxlen=n)\<close>, oldest entry first.\<close>

record 'a deque =
  items :: "'a list"
  maxlen :: nat

definition deque_new :: "int \<Rightarrow> error + 'a deque" where
  "deque_new n = (if n < 0 then Inl ValueError else Inr \<lparr>items = [], maxlen = nat n\<rparr>)"

definition deque_append :: "'a deque \<Rightarrow> 'a \<Rightarrow> 'a deque" where
  "deque_append d x =
     (let ys = items d @ [x]
      in d\<lparr>items := (if maxlen d < length ys then tl ys else ys)\<rparr>)"

text \<open>
  The globals of lines 34 to 37, the number of clock readings so far, and the trace.
\<close>

record state =
  last_seen_pool :: "pystr option"
  rolling_statuses :: "int deque"
  last_alert_time :: "string \<rightharpoonup> int"
  last_release_by_pool :: "pystr \<rightharpoonup> pystr"
  clock_calls :: nat
  trace :: "effect list"

text \<open>Loading the module: \<^verbatim>\<open>deque(maxlen=WINDOW_SIZE)\<close> raises for a negative size.\<close>

definition initial_state :: "config \<Rightarrow> error + state" where
  "initial_state cfg =
     (case deque_new (WINDOW_SIZE cfg) of
        Inl exn \<Rightarrow> Inl exn
      | Inr d \<Rightarrow>
          Inr \<lparr>last_seen_pool = None,
               rolling_statuses = d,
               last_alert_time = [''failover'' \<mapsto> 0, ''error_rate'' \<mapsto> 0],
               last_release_by_pool = Map.empty,
               clock_calls = 0,
               trace = []\<rparr>)"

subsection \<open>The functions of the module\<close>

definition now_ts :: "world \<Rightarrow> state \<Rightarrow> int \<times> state" where
  "now_ts w s = (clock w (clock_calls s), s\<lparr>clock_calls := Suc (clock_calls s)\<rparr>)"

text \<open>\<^verbatim>\<open>not SLACK_WEBHOOK_URL\<close> holds for \<^verbatim>\<open>None\<close> and for the empty string.\<close>

definition no_webhook :: "config \<Rightarrow> bool" where
  "no_webhook cfg = (case SLACK_WEBHOOK_URL cfg of None \<Rightarrow> True | Some url \<Rightarrow> url = [])"

definition post_slack :: "config \<Rightarrow> world \<Rightarrow> message \<Rightarrow> state \<Rightarrow> bool \<times> state" where
  "post_slack cfg w m s =
     (if MAINTENANCE_MODE cfg then (False, s\<lparr>trace := trace s @ [MaintenanceSuppressed m]\<rparr>)
      else if no_webhook cfg then (False, s\<lparr>trace := trace s @ [NoWebhookSkipped m]\<rparr>)
      else if transport w (post_calls (trace s))
        then (True, s\<lparr>trace := trace s @ [Posted m]\<rparr>)
        else (False, s\<lparr>trace := trace s @ [PostFailed m]\<rparr>))"

definition check_error_rate :: "state \<Rightarrow> rat option" where
  "check_error_rate s =
     (let xs = items (rolling_statuses s)
      in if length xs < 10 then None
         else let errors = sum_list (map (\<lambda>x. 1) (filter (\<lambda>x. 500 \<le> x \<and> x < 600) xs));
                  rate = float_mul (int_truediv errors (int (length xs))) 100
              in Some rate)"

text \<open>\<^verbatim>\<open>last_alert_time.get(key, 0)\<close>.\<close>

definition get_alert_time :: "state \<Rightarrow> string \<Rightarrow> int" where
  "get_alert_time s key = (case last_alert_time s key of None \<Rightarrow> 0 | Some t \<Rightarrow> t)"

text \<open>
  \<^verbatim>\<open>handle_line\<close> after the extraction is three blocks, each under its comment in the
  source. Lines 88 to 90, \<^verbatim>\<open># update rolling window\<close>:
\<close>

definition update_rolling_window :: "config \<Rightarrow> log_record \<Rightarrow> state \<Rightarrow> state" where
  "update_rolling_window cfg r s =
     (if 0 < WINDOW_SIZE cfg
      then s\<lparr>rolling_statuses := deque_append (rolling_statuses s) (status r)\<rparr>
      else s)"

text \<open>Lines 92 to 116, \<^verbatim>\<open># detect pool flip\<close>:\<close>

definition detect_pool_flip :: "config \<Rightarrow> world \<Rightarrow> log_record \<Rightarrow> state \<Rightarrow> state" where
  "detect_pool_flip cfg w r s =
     (case last_seen_pool s of
        None \<Rightarrow>
          s\<lparr>last_seen_pool := Some (pool r),
            last_release_by_pool := (last_release_by_pool s)(pool r \<mapsto> release r)\<rparr>
      | Some p \<Rightarrow>
          if pool r \<noteq> p then
            let (t, s1) = now_ts w s;
                cooldown = get_alert_time s1 ''failover'';
                s4 =
                  (if ALERT_COOLDOWN_SEC cfg \<le> t - cooldown then
                     let msg = FailoverMsg p (pool r) (release r) (upstream_addr r);
                         (posted, s2) = post_slack cfg w msg s1
                     in if posted
                        then s2\<lparr>last_alert_time := (last_alert_time s2)(''failover'' \<mapsto> t)\<rparr>
                        else s2
                   else s1\<lparr>trace := trace s1 @ [FailoverCooldown]\<rparr>)
            in s4\<lparr>last_seen_pool := Some (pool r),
                  last_release_by_pool := (last_release_by_pool s4)(pool r \<mapsto> release r)\<rparr>
          else s)"

text \<open>Lines 118 to 137, \<^verbatim>\<open># check error rate\<close>:\<close>

definition alert_error_rate :: "config \<Rightarrow> world \<Rightarrow> state \<Rightarrow> state" where
  "alert_error_rate cfg w s =
     (case check_error_rate s of
        None \<Rightarrow> s
      | Some rate \<Rightarrow>
          if float_ge rate (ERROR_RATE_THRESHOLD cfg) then
            let (t, s1) = now_ts w s
            in if ALERT_COOLDOWN_SEC cfg \<le> t - get_alert_time s1 ''error_rate'' then
                 let msg = ErrorRateMsg rate (length (items (rolling_statuses s1)))
                             (last_seen_pool s1);
                     (posted, s2) = post_slack cfg w msg s1
                 in if posted
                    then s2\<lparr>last_alert_time := (last_alert_time s2)(''error_rate'' \<mapsto> t)\<rparr>
                    else s2
               else s1\<lparr>trace := trace s1 @ [ErrorRateCooldown]\<rparr>
          else s)"

definition handle_record :: "config \<Rightarrow> world \<Rightarrow> log_record \<Rightarrow> state \<Rightarrow> state" where
  "handle_record cfg w r s =
     alert_error_rate cfg w (detect_pool_flip cfg w r (update_rolling_window cfg r s))"

definition handle_line :: "config \<Rightarrow> ucd \<Rightarrow> world \<Rightarrow> pystr \<Rightarrow> state \<Rightarrow> state" where
  "handle_line cfg U w line s = handle_record cfg w (extract_fields U line) s"

text \<open>The loop of \<^verbatim>\<open>main\<close> over the lines that \<^verbatim>\<open>follow\<close> has yielded so far.\<close>

definition handle_lines :: "config \<Rightarrow> ucd \<Rightarrow> world \<Rightarrow> pystr list \<Rightarrow> state \<Rightarrow> state" where
  "handle_lines cfg U w ls s = foldl (\<lambda>s' line. handle_line cfg U w line s') s ls"

subsection \<open>Reading the trace\<close>

text \<open>
  What one call of \<open>post_slack\<close> appends to the trace and what it returns, as functions
  of the trace before the call.
\<close>

definition outcome :: "config \<Rightarrow> world \<Rightarrow> message \<Rightarrow> effect list \<Rightarrow> effect" where
  "outcome cfg w m tr =
     (if MAINTENANCE_MODE cfg then MaintenanceSuppressed m
      else if no_webhook cfg then NoWebhookSkipped m
      else if transport w (post_calls tr) then Posted m else PostFailed m)"

definition delivered :: "config \<Rightarrow> world \<Rightarrow> effect list \<Rightarrow> bool" where
  "delivered cfg w tr =
     (\<not> MAINTENANCE_MODE cfg \<and> \<not> no_webhook cfg \<and> transport w (post_calls tr))"

text \<open>The alert that an entry of the trace carries, and the entries of the failover block.\<close>

fun message_of :: "effect \<Rightarrow> message option" where
  "message_of (MaintenanceSuppressed m) = Some m"
| "message_of (NoWebhookSkipped m) = Some m"
| "message_of (Posted m) = Some m"
| "message_of (PostFailed m) = Some m"
| "message_of FailoverCooldown = None"
| "message_of ErrorRateCooldown = None"

fun is_failover_msg :: "message \<Rightarrow> bool" where
  "is_failover_msg (FailoverMsg p q rel addr) = True"
| "is_failover_msg (ErrorRateMsg rate n p) = False"

fun failover_entry :: "effect \<Rightarrow> bool" where
  "failover_entry FailoverCooldown = True"
| "failover_entry ErrorRateCooldown = False"
| "failover_entry (MaintenanceSuppressed m) = is_failover_msg m"
| "failover_entry (NoWebhookSkipped m) = is_failover_msg m"
| "failover_entry (Posted m) = is_failover_msg m"
| "failover_entry (PostFailed m) = is_failover_msg m"

definition failover_entries :: "effect list \<Rightarrow> effect list" where
  "failover_entries tr = filter failover_entry tr"

subsection \<open>Inputs to run the model on\<close>

text \<open>The state right after the module was loaded with a window of \<open>n\<close> entries.\<close>

definition fresh_state :: "nat \<Rightarrow> state" where
  "fresh_state n =
     \<lparr>last_seen_pool = None,
      rolling_statuses = \<lparr>items = [], maxlen = n\<rparr>,
      last_alert_time = [''failover'' \<mapsto> 0, ''error_rate'' \<mapsto> 0],
      last_release_by_pool = Map.empty,
      clock_calls = 0,
      trace = []\<rparr>"

text \<open>The defaults of the module, with a webhook configured.\<close>

definition default_cfg :: config where
  "default_cfg =
     \<lparr>SLACK_WEBHOOK_URL = Some ''https://hooks.slack.com/services/T000/B000/XXXX'',
      ERROR_RATE_THRESHOLD = Finite 2,
      WINDOW_SIZE = 200,
      ALERT_COOLDOWN_SEC = 300,
      MAINTENANCE_MODE = False\<rparr>"

text \<open>A clock that starts at \<open>t0\<close> and advances by one second at each reading.\<close>

definition ticking :: "int \<Rightarrow> bool \<Rightarrow> world" where
  "ticking t0 ok = \<lparr>clock = (\<lambda>n. t0 + int n), transport = (\<lambda>n. ok)\<rparr>"

definition line_blue :: pystr where
  "line_blue = py ''10.0.0.7 GET /version 200 pool=blue release=v1 upstream_status=200 upstream_addr=10.0.1.2:3000 request_time=0.004'' @ [10]"

definition line_green :: pystr where
  "line_green = py ''10.0.0.7 GET /version 200 pool=green release=v2 upstream_status=200 upstream_addr=10.0.1.3:3000 request_time=0.005'' @ [10]"

definition line_500 :: pystr where
  "line_500 = py ''10.0.0.7 GET /version 500 pool=green release=v2 upstream_status=500 upstream_addr=10.0.1.3:3000 request_time=0.031'' @ [10]"

text \<open>A line that is not in the log format at all.\<close>

definition line_noise :: pystr where
  "line_noise = py ''-- rotated --'' @ [10]"

definition line_599 :: pystr where
  "line_599 = py ''10.0.0.7 GET /version 599 pool=blue release=v1 upstream_status=599 upstream_addr=10.0.1.2:3000 request_time=0.200'' @ [10]"

subsection \<open>Status tokens\<close>

text \<open>
  A status token at position \<open>i\<close> of a line: three decimal digits with a white space
  before and after, the first white space being the \<open>i\<close>-th character.
\<close>

definition status_token_at :: "ucd \<Rightarrow> pystr \<Rightarrow> nat \<Rightarrow> bool" where
  "status_token_at U line i =
     (case drop i line of
        a # b # c # d # e # rest \<Rightarrow>
          isspace U a \<and> isdigit U b \<and> isdigit U c \<and> isdigit U d \<and> isspace U e
      | _ \<Rightarrow> False)"

section \<open>Properties\<close>

subsection \<open>The three blocks of \<open>handle_line\<close>, case by case\<close>

lemma post_slack_eq:
  "post_slack cfg w m s =
     (delivered cfg w (trace s), s\<lparr>trace := trace s @ [outcome cfg w m (trace s)]\<rparr>)"
  by (simp add: post_slack_def delivered_def outcome_def)

lemma update_rolling_window_other [simp]:
  "trace (update_rolling_window cfg r s) = trace s"
  "last_seen_pool (update_rolling_window cfg r s) = last_seen_pool s"
  "last_alert_time (update_rolling_window cfg r s) = last_alert_time s"
  "last_release_by_pool (update_rolling_window cfg r s) = last_release_by_pool s"
  "clock_calls (update_rolling_window cfg r s) = clock_calls s"
  by (simp_all add: update_rolling_window_def)

lemma detect_pool_flip_first:
  "last_seen_pool s = None \<Longrightarrow>
   detect_pool_flip cfg w r s =
     s\<lparr>last_seen_pool := Some (pool r),
       last_release_by_pool := (last_release_by_pool s)(pool r \<mapsto> release r)\<rparr>"
  by (simp add: detect_pool_flip_def)

lemma detect_pool_flip_same:
  "last_seen_pool s = Some (pool r) \<Longrightarrow> detect_pool_flip cfg w r s = s"
  by (simp add: detect_pool_flip_def)

lemma detect_pool_flip_change:
  assumes "last_seen_pool s = Some p" and "pool r \<noteq> p"
  shows "detect_pool_flip cfg w r s =
     (let t = clock w (clock_calls s);
          pass = (ALERT_COOLDOWN_SEC cfg \<le> t - get_alert_time s ''failover'');
          msg = FailoverMsg p (pool r) (release r) (upstream_addr r)
      in s\<lparr>last_seen_pool := Some (pool r),
            last_release_by_pool := (last_release_by_pool s)(pool r \<mapsto> release r),
            clock_calls := Suc (clock_calls s),
            trace := trace s @ [if pass then outcome cfg w msg (trace s) else FailoverCooldown],
            last_alert_time :=
              (if pass \<and> delivered cfg w (trace s)
               then (last_alert_time s)(''failover'' \<mapsto> t) else last_alert_time s)\<rparr>)"
  using assms
  by (simp add: detect_pool_flip_def now_ts_def post_slack_eq get_alert_time_def Let_def)

lemma alert_error_rate_quiet:
  "check_error_rate s = None \<or>
   (\<exists>rate. check_error_rate s = Some rate \<and> \<not> float_ge rate (ERROR_RATE_THRESHOLD cfg)) \<Longrightarrow>
   alert_error_rate cfg w s = s"
  by (auto simp add: alert_error_rate_def)

lemma alert_error_rate_fire:
  assumes "check_error_rate s = Some rate" and "float_ge rate (ERROR_RATE_THRESHOLD cfg)"
  shows "alert_error_rate cfg w s =
     (let t = clock w (clock_calls s);
          pass = (ALERT_COOLDOWN_SEC cfg \<le> t - get_alert_time s ''error_rate'');
          msg = ErrorRateMsg rate (length (items (rolling_statuses s))) (last_seen_pool s)
      in s\<lparr>clock_calls := Suc (clock_calls s),
            trace := trace s @ [if pass then outcome cfg w msg (trace s) else ErrorRateCooldown],
            last_alert_time :=
              (if pass \<and> delivered cfg w (trace s)
               then (last_alert_time s)(''error_rate'' \<mapsto> t) else last_alert_time s)\<rparr>)"
  using assms
  by (simp add: alert_error_rate_def now_ts_def post_slack_eq get_alert_time_def Let_def)

lemma initial_state_eq:
  "initial_state cfg =
     (if WINDOW_SIZE cfg < 0 then Inl ValueError else Inr (fresh_state (nat (WINDOW_SIZE cfg))))"
  by (simp add: initial_state_def deque_new_def fresh_state_def)

subsection \<open>Maintenance mode\<close>

lemma detect_pool_flip_posts:
  assumes "MAINTENANCE_MODE cfg"
  shows "filter is_post (trace (detect_pool_flip cfg w r s)) = filter is_post (trace s)"
proof (cases "last_seen_pool s")
  case None
  then show ?thesis by (simp add: detect_pool_flip_first)
next
  case (Some p)
  show ?thesis
  proof (cases "pool r = p")
    case True
    with Some show ?thesis by (simp add: detect_pool_flip_same)
  next
    case False
    with Some assms show ?thesis
      by (simp add: detect_pool_flip_change Let_def outcome_def)
  qed
qed

lemma alert_error_rate_posts:
  assumes "MAINTENANCE_MODE cfg"
  shows "filter is_post (trace (alert_error_rate cfg w s)) = filter is_post (trace s)"
proof (cases "check_error_rate s")
  case None
  then show ?thesis by (simp add: alert_error_rate_quiet)
next
  case (Some rate)
  show ?thesis
  proof (cases "float_ge rate (ERROR_RATE_THRESHOLD cfg)")
    case True
    with Some assms show ?thesis
      by (simp add: alert_error_rate_fire Let_def outcome_def)
  next
    case False
    with Some show ?thesis by (simp add: alert_error_rate_quiet)
  qed
qed

lemma handle_line_posts:
  "MAINTENANCE_MODE cfg \<Longrightarrow>
   filter is_post (trace (handle_line cfg U w line s)) = filter is_post (trace s)"
  by (simp add: handle_line_def handle_record_def alert_error_rate_posts detect_pool_flip_posts)

lemma handle_lines_posts:
  "MAINTENANCE_MODE cfg \<Longrightarrow>
   filter is_post (trace (handle_lines cfg U w ls s)) = filter is_post (trace s)"
  unfolding handle_lines_def
  by (induction ls arbitrary: s) (simp_all add: handle_line_posts)

text \<open>
  Claim C7. With maintenance mode on, no call of \<^verbatim>\<open>requests.post\<close> is ever made:
  \<open>post_slack\<close> returns \<open>False\<close> for every alert and only prints that the alert is
  suppressed, and whatever lines are handled, from whatever state (so whatever the
  cooldown times are), the trace gains no entry of a call to the webhook.
\<close>

theorem maintenance_mode_no_transport_call:
  assumes "MAINTENANCE_MODE cfg"
  shows "post_slack cfg w m s = (False, s\<lparr>trace := trace s @ [MaintenanceSuppressed m]\<rparr>) \<and>
         filter is_post (trace (handle_lines cfg U w ls s)) = filter is_post (trace s)"
  using assms by (simp add: post_slack_def handle_lines_posts)

theorem maintenance_mode_no_transport_call_witness:
  "MAINTENANCE_MODE (default_cfg\<lparr>MAINTENANCE_MODE := True\<rparr>) \<and>
   filter is_post
     (trace (handle_lines (default_cfg\<lparr>MAINTENANCE_MODE := True\<rparr>) ascii_ucd
        (ticking 1700000000 True) [line_blue, line_green, line_blue] (fresh_state 200))) = []"
proof -
  have h: "MAINTENANCE_MODE (default_cfg\<lparr>MAINTENANCE_MODE := True\<rparr>)" by simp
  have t: "trace (fresh_state 200) = []" by (simp add: fresh_state_def)
  from maintenance_mode_no_transport_call [OF h,
      of "ticking 1700000000 True" "ErrorRateMsg 5 20 None" "fresh_state 200" ascii_ucd
         "[line_blue, line_green, line_blue]"]
  show ?thesis using h t by simp
qed

subsection \<open>The rolling window\<close>

lemma items_deque_append:
  "items (deque_append d x) =
     (if length (items d) < maxlen d then items d @ [x] else tl (items d @ [x]))"
  by (auto simp add: deque_append_def Let_def)

lemma maxlen_deque_append [simp]: "maxlen (deque_append d x) = maxlen d"
  by (simp add: deque_append_def Let_def)

lemma rolling_statuses_detect_pool_flip [simp]:
  "rolling_statuses (detect_pool_flip cfg w r s) = rolling_statuses s"
proof (cases "last_seen_pool s")
  case None
  then show ?thesis by (simp add: detect_pool_flip_first)
next
  case (Some p)
  then show ?thesis
    by (cases "pool r = p") (simp_all add: detect_pool_flip_same detect_pool_flip_change Let_def)
qed

lemma rolling_statuses_alert_error_rate [simp]:
  "rolling_statuses (alert_error_rate cfg w s) = rolling_statuses s"
proof (cases "check_error_rate s")
  case None
  then show ?thesis by (simp add: alert_error_rate_quiet)
next
  case (Some rate)
  then show ?thesis
    by (cases "float_ge rate (ERROR_RATE_THRESHOLD cfg)")
       (simp_all add: alert_error_rate_quiet alert_error_rate_fire Let_def)
qed

lemma rolling_statuses_handle_record:
  "rolling_statuses (handle_record cfg w r s) =
     (if 0 < WINDOW_SIZE cfg then deque_append (rolling_statuses s) (status r)
      else rolling_statuses s)"
  by (simp add: handle_record_def update_rolling_window_def)

lemma handle_lines_snoc:
  "handle_lines cfg U w (ls @ [l]) s = handle_line cfg U w l (handle_lines cfg U w ls s)"
  by (simp add: handle_lines_def)

lemma maxlen_handle_lines:
  "maxlen (rolling_statuses (handle_lines cfg U w ls s)) = maxlen (rolling_statuses s)"
  by (induction ls rule: rev_induct)
     (simp_all add: handle_lines_snoc handle_line_def rolling_statuses_handle_record,
      simp add: handle_lines_def)

lemma window_push:
  assumes "maxlen (rolling_statuses s) = nat (WINDOW_SIZE cfg)"
    and "length (items (rolling_statuses s)) \<le> nat (WINDOW_SIZE cfg)"
  shows "items (rolling_statuses (handle_record cfg w r s)) =
           drop (Suc (length (items (rolling_statuses s))) - nat (WINDOW_SIZE cfg))
             (items (rolling_statuses s) @ [status r])"
proof (cases "0 < WINDOW_SIZE cfg")
  case True
  show ?thesis
  proof (cases "length (items (rolling_statuses s)) < nat (WINDOW_SIZE cfg)")
    case less: True
    with True assms show ?thesis
      by (simp add: rolling_statuses_handle_record items_deque_append)
  next
    case False
    with assms have full: "length (items (rolling_statuses s)) = nat (WINDOW_SIZE cfg)" by simp
    then have one: "Suc (length (items (rolling_statuses s))) - nat (WINDOW_SIZE cfg) = 1" by simp
    from full True have ne: "items (rolling_statuses s) \<noteq> []" by auto
    from True assms full ne show ?thesis
      unfolding one by (simp add: rolling_statuses_handle_record items_deque_append drop_Suc)
  qed
next
  case False
  with assms show ?thesis by (simp add: rolling_statuses_handle_record)
qed

lemma window_contents:
  "items (rolling_statuses (handle_lines cfg U w ls (fresh_state (nat (WINDOW_SIZE cfg))))) =
     drop (length ls - nat (WINDOW_SIZE cfg)) (map (\<lambda>l. status (extract_fields U l)) ls)"
proof (induction ls rule: rev_induct)
  case Nil
  show ?case by (simp add: handle_lines_def fresh_state_def)
next
  case (snoc l ls)
  let ?cap = "nat (WINDOW_SIZE cfg)"
  let ?s = "handle_lines cfg U w ls (fresh_state ?cap)"
  let ?sts = "map (\<lambda>l. status (extract_fields U l)) ls"
  let ?st = "status (extract_fields U l)"
  have m: "maxlen (rolling_statuses ?s) = ?cap"
    by (simp add: maxlen_handle_lines fresh_state_def)
  have it: "items (rolling_statuses ?s) = drop (length ls - ?cap) ?sts"
    using snoc.IH by simp
  have le: "length (items (rolling_statuses ?s)) \<le> ?cap"
    unfolding it by simp
  have step: "items (rolling_statuses (handle_line cfg U w l ?s)) =
          drop (Suc (length (drop (length ls - ?cap) ?sts)) - ?cap)
            (drop (length ls - ?cap) ?sts @ [?st])"
    using window_push [OF m le, of w "extract_fields U l"] unfolding it
    by (simp add: handle_line_def)
  have "drop (Suc (length (drop (length ls - ?cap) ?sts)) - ?cap)
            (drop (length ls - ?cap) ?sts @ [?st]) =
        drop (Suc (length ls) - ?cap) (?sts @ [?st])"
  proof (cases "length ls < ?cap")
    case True
    then show ?thesis by simp
  next
    case False
    then have ge: "?cap \<le> length ls" by simp
    show ?thesis
    proof (cases "?cap = 0")
      case True
      then show ?thesis by simp
    next
      case False
      with ge have a: "Suc (length ls) - ?cap = Suc (length ls - ?cap)"
        and b: "length ls - (length ls - ?cap) = ?cap"
        and c: "length ls - ?cap < length ls" by arith+
      have "length (drop (length ls - ?cap) ?sts) = ?cap" using b by simp
      then have "drop (Suc (length (drop (length ls - ?cap) ?sts)) - ?cap)
                   (drop (length ls - ?cap) ?sts @ [?st]) =
                 drop 1 (drop (length ls - ?cap) ?sts @ [?st])" by simp
      also have "\<dots> = drop (Suc (length ls - ?cap)) ?sts @ [?st]"
        using b False by simp
      also have "\<dots> = drop (Suc (length ls) - ?cap) (?sts @ [?st])"
        unfolding a using c by simp
      finally show ?thesis .
    qed
  qed
  with step show ?case by (simp add: handle_lines_snoc)
qed

subsection \<open>A window size below zero\<close>

text \<open>With a window size of \<open>0\<close> the module loads and the window stays empty and silent.\<close>

lemma zero_window_disabled:
  assumes "WINDOW_SIZE cfg = 0"
  shows "initial_state cfg = Inr (fresh_state 0)"
    and "items (rolling_statuses (handle_lines cfg U w ls (fresh_state 0))) = []"
    and "check_error_rate (handle_lines cfg U w ls (fresh_state 0)) = None"
proof -
  show "initial_state cfg = Inr (fresh_state 0)"
    using assms by (simp add: initial_state_eq)
  have "items (rolling_statuses (handle_lines cfg U w ls (fresh_state (nat (WINDOW_SIZE cfg))))) =
          drop (length ls - nat (WINDOW_SIZE cfg)) (map (\<lambda>l. status (extract_fields U l)) ls)"
    by (rule window_contents)
  then show e: "items (rolling_statuses (handle_lines cfg U w ls (fresh_state 0))) = []"
    using assms by simp
  show "check_error_rate (handle_lines cfg U w ls (fresh_state 0)) = None"
    by (simp add: check_error_rate_def e)
qed

text \<open>
  Claim C9. A window size of \<open>0\<close> or less is meant to disable the window without a
  failure. The test \<^verbatim>\<open>WINDOW_SIZE > 0\<close> in \<^verbatim>\<open>handle_line\<close> is written for that, yet with a
  negative size the module does not load: \<^verbatim>\<open>deque(maxlen=WINDOW_SIZE)\<close> raises ValueError.
\<close>

theorem negative_window_size_raises:
  "initial_state (default_cfg\<lparr>WINDOW_SIZE := - 1\<rparr>) = Inl ValueError"
  by (simp add: initial_state_def deque_new_def)

subsection \<open>The example lines\<close>

lemma extract_line_blue:
  "extract_fields ascii_ucd line_blue =
     \<lparr>pool = py ''blue'', release = py ''v1'', status = 200,
      upstream_status = py ''200'', upstream_addr = py ''10.0.1.2:3000''\<rparr>"
  by code_simp

lemma extract_line_green:
  "extract_fields ascii_ucd line_green =
     \<lparr>pool = py ''green'', release = py ''v2'', status = 200,
      upstream_status = py ''200'', upstream_addr = py ''10.0.1.3:3000''\<rparr>"
  by code_simp

lemma extract_line_500:
  "extract_fields ascii_ucd line_500 =
     \<lparr>pool = py ''green'', release = py ''v2'', status = 500,
      upstream_status = py ''500'', upstream_addr = py ''10.0.1.3:3000''\<rparr>"
  by code_simp

lemma extract_line_noise:
  "extract_fields ascii_ucd line_noise =
     \<lparr>pool = py ''unknown'', release = py ''unknown'', status = 0,
      upstream_status = [], upstream_addr = []\<rparr>"
  by code_simp

subsection \<open>The rolling window is bounded and first-in first-out\<close>

text \<open>
  Claim C4. Once the module is loaded, after any sequence of handled lines the window
  holds at most \<open>WINDOW_SIZE\<close> statuses: it holds the statuses of the most recent
  \<open>WINDOW_SIZE\<close> lines, oldest first. A push onto a window that is not full appends; a
  push onto a full window drops exactly the oldest status and appends the new one.
\<close>

theorem rolling_window_bounded_fifo:
  assumes "initial_state cfg = Inr s0"
  shows "length (items (rolling_statuses (handle_lines cfg U w ls s0))) \<le> nat (WINDOW_SIZE cfg) \<and>
         items (rolling_statuses (handle_lines cfg U w ls s0)) =
           drop (length ls - nat (WINDOW_SIZE cfg)) (map (\<lambda>l. status (extract_fields U l)) ls) \<and>
         (length (items (rolling_statuses (handle_lines cfg U w ls s0))) < nat (WINDOW_SIZE cfg) \<longrightarrow>
            items (rolling_statuses (handle_line cfg U w line (handle_lines cfg U w ls s0))) =
              items (rolling_statuses (handle_lines cfg U w ls s0)) @ [status (extract_fields U line)]) \<and>
         (0 < WINDOW_SIZE cfg \<and>
          length (items (rolling_statuses (handle_lines cfg U w ls s0))) = nat (WINDOW_SIZE cfg) \<longrightarrow>
            items (rolling_statuses (handle_line cfg U w line (handle_lines cfg U w ls s0))) =
              tl (items (rolling_statuses (handle_lines cfg U w ls s0))) @
                [status (extract_fields U line)])"
proof -
  let ?cap = "nat (WINDOW_SIZE cfg)"
  let ?s = "handle_lines cfg U w ls s0"
  from assms have s0: "s0 = fresh_state ?cap" and nonneg: "0 \<le> WINDOW_SIZE cfg"
    by (simp_all add: initial_state_eq split: if_splits)
  have it: "items (rolling_statuses ?s) =
              drop (length ls - ?cap) (map (\<lambda>l. status (extract_fields U l)) ls)"
    unfolding s0 by (rule window_contents)
  have le: "length (items (rolling_statuses ?s)) \<le> ?cap"
    unfolding it by simp
  have m: "maxlen (rolling_statuses ?s) = ?cap"
    unfolding s0 by (simp add: maxlen_handle_lines fresh_state_def)
  have push: "items (rolling_statuses (handle_line cfg U w line ?s)) =
                drop (Suc (length (items (rolling_statuses ?s))) - ?cap)
                  (items (rolling_statuses ?s) @ [status (extract_fields U line)])"
    using window_push [OF m le] by (simp add: handle_line_def)
  have a: "length (items (rolling_statuses ?s)) < ?cap \<longrightarrow>
             items (rolling_statuses (handle_line cfg U w line ?s)) =
               items (rolling_statuses ?s) @ [status (extract_fields U line)]"
    unfolding push by simp
  have b: "0 < WINDOW_SIZE cfg \<and> length (items (rolling_statuses ?s)) = ?cap \<longrightarrow>
             items (rolling_statuses (handle_line cfg U w line ?s)) =
               tl (items (rolling_statuses ?s)) @ [status (extract_fields U line)]"
  proof (intro impI, elim conjE)
    assume pos: "0 < WINDOW_SIZE cfg" and full: "length (items (rolling_statuses ?s)) = ?cap"
    then have ne: "items (rolling_statuses ?s) \<noteq> []" by auto
    from full have "Suc (length (items (rolling_statuses ?s))) - ?cap = 1" by simp
    moreover from ne obtain x xs where "items (rolling_statuses ?s) = x # xs"
      by (cases "items (rolling_statuses ?s)") auto
    ultimately show "items (rolling_statuses (handle_line cfg U w line ?s)) =
               tl (items (rolling_statuses ?s)) @ [status (extract_fields U line)]"
      unfolding push by simp
  qed
  from le it a b show ?thesis by blast
qed

theorem rolling_window_bounded_fifo_witness:
  "initial_state (default_cfg\<lparr>WINDOW_SIZE := 2\<rparr>) = Inr (fresh_state 2) \<and>
   items (rolling_statuses (handle_lines (default_cfg\<lparr>WINDOW_SIZE := 2\<rparr>) ascii_ucd
            (ticking 1700000000 True) [line_blue, line_500] (fresh_state 2))) = [200, 500] \<and>
   items (rolling_statuses (handle_line (default_cfg\<lparr>WINDOW_SIZE := 2\<rparr>) ascii_ucd
            (ticking 1700000000 True) line_noise
            (handle_lines (default_cfg\<lparr>WINDOW_SIZE := 2\<rparr>) ascii_ucd
               (ticking 1700000000 True) [line_blue, line_500] (fresh_state 2)))) = [500, 0]"
proof -
  have h: "initial_state (default_cfg\<lparr>WINDOW_SIZE := 2\<rparr>) = Inr (fresh_state 2)"
    by (simp add: initial_state_eq default_cfg_def)
  have c: "WINDOW_SIZE (default_cfg\<lparr>WINDOW_SIZE := 2\<rparr>) = 2" by simp
  from rolling_window_bounded_fifo [OF h, of ascii_ucd "ticking 1700000000 True"
      "[line_blue, line_500]" line_noise]
  show ?thesis using h
    unfolding c by (simp add: extract_line_blue extract_line_500 extract_line_noise)
qed

subsection \<open>Rounding to binary64 keeps a percentage between 0 and 100\<close>

lemma pow2_pos [simp]: "0 < pow2 e"
  by (simp add: pow2_def)

lemma pow2_nonneg [simp]: "0 \<le> pow2 e"
  by (simp add: pow2_def)

lemma pow2_nonpos: "e \<le> 0 \<Longrightarrow> pow2 e * 2 ^ nat (- e) = 1"
  by (cases "e = 0") (simp_all add: pow2_def)

lemma round_half_even_le:
  assumes "x \<le> of_int k"
  shows "round_half_even x \<le> k"
proof -
  have fl: "\<lfloor>x\<rfloor> \<le> k" using assms by (simp add: floor_le_iff)
  show ?thesis
  proof (cases "\<lfloor>x\<rfloor> = k")
    case True
    then have "of_int k \<le> x" by (metis of_int_floor_le)
    with assms have "x = of_int k" by simp
    then show ?thesis by (simp add: round_half_even_def)
  next
    case False
    with fl have "\<lfloor>x\<rfloor> + 1 \<le> k" by simp
    with fl show ?thesis by (simp add: round_half_even_def Let_def)
  qed
qed

lemma round_half_even_nonneg:
  assumes "0 \<le> x"
  shows "0 \<le> round_half_even x"
proof -
  have "0 \<le> \<lfloor>x\<rfloor>" using assms by simp
  then show ?thesis by (simp add: round_half_even_def Let_def)
qed

lemma round_double_nonneg:
  assumes "0 \<le> x"
  shows "0 \<le> round_double x"
proof (cases "x = 0")
  case True
  then show ?thesis by (simp add: round_double_def)
next
  case False
  have "0 \<le> x / pow2 e" for e
    using assms pow2_pos [of e] by (intro divide_nonneg_pos)
  then have "0 \<le> round_half_even (x / pow2 e)" for e by (rule round_half_even_nonneg)
  then have "0 \<le> (of_int (round_half_even (x / pow2 e)) :: rat) * pow2 e" for e
    by (intro mult_nonneg_nonneg) simp_all
  then show ?thesis using False by (simp add: round_double_def Let_def)
qed

text \<open>Rounding never crosses a number \<open>k * 2 ^ e\<close> of the grid it rounds to.\<close>

lemma round_to_grid_le:
  assumes "x \<le> of_int k * pow2 e"
  shows "of_int (round_half_even (x / pow2 e)) * pow2 e \<le> of_int k * pow2 e"
proof -
  have "x / pow2 e \<le> of_int k" using assms by (simp add: pos_divide_le_eq)
  then have "round_half_even (x / pow2 e) \<le> k" by (rule round_half_even_le)
  then have "(of_int (round_half_even (x / pow2 e)) :: rat) \<le> of_int k" by simp
  then show ?thesis by (simp add: mult_right_mono)
qed

lemma ilog2_le:
  "ilog2 x \<le> bitlen (fst (quotient_of x)) - bitlen (snd (quotient_of x))"
  by (simp add: ilog2_def Let_def)

lemma bitlen_diff_le:
  assumes "0 < x" and "x \<le> 2 ^ n"
  shows "bitlen (fst (quotient_of x)) - bitlen (snd (quotient_of x)) \<le> int n"
proof -
  obtain p q where pq: "quotient_of x = (p, q)" by (cases "quotient_of x")
  then have q: "0 < q" and x: "x = of_int p / of_int q"
    by (auto dest: quotient_of_denom_pos quotient_of_div)
  from assms(2) q have "(of_int p :: rat) \<le> 2 ^ n * of_int q"
    unfolding x by (simp add: pos_divide_le_eq)
  then have "(of_int p :: rat) \<le> of_int (2 ^ n * q)" by simp
  then have le: "p \<le> 2 ^ n * q" by (simp only: of_int_le_iff)
  have "q < 2 ^ nat (bitlen q)" using bitlen_bounds [OF q] by simp
  then have "2 ^ n * q < 2 ^ n * 2 ^ nat (bitlen q)" by simp
  with le have "p < 2 ^ n * 2 ^ nat (bitlen q)" by linarith
  then have "p < 2 ^ (n + nat (bitlen q))" by (simp only: power_add)
  moreover have "n + nat (bitlen q) = nat (bitlen q + int n)"
    using bitlen_nonneg [of q] by simp
  ultimately have "bitlen p \<le> bitlen q + int n"
    using bitlen_nonneg [of q] by (simp add: bitlen_le_iff_power)
  with pq show ?thesis by simp
qed

lemma round_double_le_1:
  assumes "0 \<le> x" and "x \<le> 1"
  shows "round_double x \<le> 1"
proof (cases "x = 0")
  case True
  then show ?thesis by (simp add: round_double_def)
next
  case False
  with assms have pos: "0 < x" by simp
  define e where "e = max (ilog2 \<bar>x\<bar>) (- 1022) - 52"
  have "ilog2 \<bar>x\<bar> \<le> 0"
    using ilog2_le [of "\<bar>x\<bar>"] bitlen_diff_le [of "\<bar>x\<bar>" 0] pos assms by simp
  then have e: "e \<le> 0" by (simp add: e_def)
  have one: "of_int (2 ^ nat (- e)) * pow2 e = 1"
    using pow2_nonpos [OF e] by (simp add: mult.commute)
  have "x \<le> of_int (2 ^ nat (- e)) * pow2 e"
    by (simp only: one assms)
  then have "of_int (round_half_even (x / pow2 e)) * pow2 e \<le> of_int (2 ^ nat (- e)) * pow2 e"
    by (rule round_to_grid_le)
  then have "of_int (round_half_even (x / pow2 e)) * pow2 e \<le> 1" by (simp only: one)
  with False show ?thesis by (simp add: round_double_def Let_def e_def)
qed

lemma round_double_le_100:
  assumes "0 \<le> x" and "x \<le> 100"
  shows "round_double x \<le> 100"
proof (cases "x = 0")
  case True
  then show ?thesis by (simp add: round_double_def)
next
  case False
  with assms have pos: "0 < x" by simp
  define e where "e = max (ilog2 \<bar>x\<bar>) (- 1022) - 52"
  have "x \<le> 2 ^ 7" using assms by simp
  then have "ilog2 \<bar>x\<bar> \<le> 7"
    using ilog2_le [of "\<bar>x\<bar>"] bitlen_diff_le [of "\<bar>x\<bar>" 7] pos by simp
  then have e: "e \<le> 0" by (simp add: e_def)
  have "of_int (100 * 2 ^ nat (- e)) * pow2 e = 100 * (pow2 e * 2 ^ nat (- e))"
    by simp
  then have hundred: "of_int (100 * 2 ^ nat (- e)) * pow2 e = 100"
    using pow2_nonpos [OF e] by simp
  have "x \<le> of_int (100 * 2 ^ nat (- e)) * pow2 e"
    by (simp only: hundred assms)
  then have "of_int (round_half_even (x / pow2 e)) * pow2 e \<le> of_int (100 * 2 ^ nat (- e)) * pow2 e"
    by (rule round_to_grid_le)
  then have "of_int (round_half_even (x / pow2 e)) * pow2 e \<le> 100" by (simp only: hundred)
  with False show ?thesis by (simp add: round_double_def Let_def e_def)
qed

subsection \<open>The rounding model is rounding to nearest\<close>

lemma pow2_powi: "pow2 e = 2 powi e"
  unfolding pow2_def power_int_def by (simp add: power_one_over inverse_eq_divide)

lemma pow2_add: "pow2 (a + b) = pow2 a * pow2 b"
  unfolding pow2_powi by (rule power_int_add) simp

lemma pow2_int: "pow2 (int n) = 2 ^ n"
  by (simp add: pow2_def)

lemma ilog2_correct:
  assumes "0 < x"
  shows "pow2 (ilog2 x) \<le> x \<and> x < pow2 (ilog2 x + 1)"
proof -
  obtain p q where pq: "quotient_of x = (p, q)" by (cases "quotient_of x")
  then have q: "0 < q" and x: "x = of_int p / of_int q"
    by (auto dest: quotient_of_denom_pos quotient_of_div)
  from assms q have p: "0 < p" unfolding x by (simp add: zero_less_divide_iff)
  define d where "d = bitlen p - bitlen q"
  have bp: "1 \<le> bitlen p" and bq: "1 \<le> bitlen q"
    using p q bitlen_eq_zero_iff [of p] bitlen_eq_zero_iff [of q] bitlen_nonneg [of p]
      bitlen_nonneg [of q] by linarith+
  have p_lo: "pow2 (bitlen p - 1) \<le> of_int p" and p_hi: "(of_int p :: rat) < pow2 (bitlen p)"
  proof -
    from bitlen_bounds [OF p] have "(of_int (2 ^ nat (bitlen p - 1)) :: rat) \<le> of_int p"
      and "(of_int p :: rat) < of_int (2 ^ nat (bitlen p))"
      by (simp_all only: of_int_le_iff of_int_less_iff)
    then show "pow2 (bitlen p - 1) \<le> of_int p" and "(of_int p :: rat) < pow2 (bitlen p)"
      using bp by (simp_all add: pow2_def)
  qed
  have q_lo: "pow2 (bitlen q - 1) \<le> of_int q" and q_hi: "(of_int q :: rat) < pow2 (bitlen q)"
  proof -
    from bitlen_bounds [OF q] have "(of_int (2 ^ nat (bitlen q - 1)) :: rat) \<le> of_int q"
      and "(of_int q :: rat) < of_int (2 ^ nat (bitlen q))"
      by (simp_all only: of_int_le_iff of_int_less_iff)
    then show "pow2 (bitlen q - 1) \<le> of_int q" and "(of_int q :: rat) < pow2 (bitlen q)"
      using bq by (simp_all add: pow2_def)
  qed
  have qpos: "(0 :: rat) < of_int q" using q by simp
  have up: "x < pow2 (d + 1)"
  proof -
    have "pow2 (d + 1) * pow2 (bitlen q - 1) = pow2 (bitlen p)"
      by (simp add: d_def flip: pow2_add)
    then have "of_int p < pow2 (d + 1) * pow2 (bitlen q - 1)" using p_hi by simp
    also have "\<dots> \<le> pow2 (d + 1) * of_int q"
      using q_lo by (intro mult_left_mono) simp_all
    finally show ?thesis unfolding x using qpos by (simp add: pos_divide_less_eq)
  qed
  have lo: "pow2 (d - 1) < x"
  proof -
    have "pow2 (d - 1) * of_int q < pow2 (d - 1) * pow2 (bitlen q)"
      using q_hi by (intro mult_strict_left_mono) simp_all
    also have "\<dots> = pow2 (bitlen p - 1)"
      by (simp add: d_def flip: pow2_add)
    also have "\<dots> \<le> of_int p" by (rule p_lo)
    finally show ?thesis unfolding x using qpos by (simp add: pos_less_divide_eq)
  qed
  have il: "ilog2 x = (if pow2 d \<le> x then d else d - 1)"
    by (simp add: ilog2_def Let_def pq d_def)
  show ?thesis
  proof (cases "pow2 d \<le> x")
    case True
    with il up show ?thesis by simp
  next
    case False
    with il lo show ?thesis by simp
  qed
qed

text \<open>A number on the binary64 grid is its own rounding.\<close>

lemma round_half_even_int [simp]: "round_half_even (of_int k) = k"
  by (simp add: round_half_even_def)


lemma round_half_even_nearest: "\<bar>of_int (round_half_even x) - x\<bar> \<le> 1 / 2"
proof -
  have "of_int \<lfloor>x\<rfloor> \<le> x" and "x < of_int \<lfloor>x\<rfloor> + 1" by linarith+
  then show ?thesis by (auto simp add: round_half_even_def Let_def)
qed

text \<open>The rounding error is at most half the spacing of the grid at \<open>x\<close>.\<close>

lemma round_double_error:
  assumes "x \<noteq> 0"
  shows "\<bar>round_double x - x\<bar> \<le> pow2 (max (ilog2 \<bar>x\<bar>) (- 1022) - 52) / 2"
proof -
  define e where "e = max (ilog2 \<bar>x\<bar>) (- 1022) - 52"
  have "\<bar>of_int (round_half_even (x / pow2 e)) - x / pow2 e\<bar> \<le> 1 / 2"
    by (rule round_half_even_nearest)
  then have "\<bar>of_int (round_half_even (x / pow2 e)) - x / pow2 e\<bar> * pow2 e \<le> 1 / 2 * pow2 e"
    by (rule mult_right_mono) simp
  moreover have "\<bar>of_int (round_half_even (x / pow2 e)) - x / pow2 e\<bar> * pow2 e =
      \<bar>of_int (round_half_even (x / pow2 e)) * pow2 e - x\<bar>"
  proof -
    have "\<bar>of_int (round_half_even (x / pow2 e)) - x / pow2 e\<bar> * pow2 e =
        \<bar>(of_int (round_half_even (x / pow2 e)) - x / pow2 e) * pow2 e\<bar>"
      by (simp add: abs_mult)
    also have "(of_int (round_half_even (x / pow2 e)) - x / pow2 e) * pow2 e =
        of_int (round_half_even (x / pow2 e)) * pow2 e - x"
    proof -
      have "pow2 e \<noteq> 0" by (simp add: pow2_def)
      then show ?thesis by (simp add: left_diff_distrib)
    qed
    finally show ?thesis .
  qed
  ultimately have "\<bar>of_int (round_half_even (x / pow2 e)) * pow2 e - x\<bar> \<le> 1 / 2 * pow2 e"
    by (simp only:)
  moreover have "round_double x = of_int (round_half_even (x / pow2 e)) * pow2 e"
    using assms by (simp add: round_double_def Let_def e_def)
  ultimately have "\<bar>round_double x - x\<bar> \<le> pow2 e / 2" by simp
  then show ?thesis by (simp only: e_def)
qed

subsection \<open>The error rate\<close>

lemma sum_list_ones: "sum_list (map (\<lambda>x. 1 :: int) ys) = int (length ys)"
  by (induction ys) simp_all

lemma check_error_rate_eq:
  "check_error_rate s =
     (if length (items (rolling_statuses s)) < 10 then None
      else Some (float_mul
                   (int_truediv
                      (int (length (filter (\<lambda>x. 500 \<le> x \<and> x < 600) (items (rolling_statuses s)))))
                      (int (length (items (rolling_statuses s)))))
                   100))"
  by (simp add: check_error_rate_def Let_def sum_list_ones)

lemma percentage_bounds:
  assumes "c \<le> n" and "0 < n"
  shows "0 \<le> float_mul (int_truediv (int c) (int n)) 100"
    and "float_mul (int_truediv (int c) (int n)) 100 \<le> 100"
proof -
  let ?q = "(of_int (int c) :: rat) / of_int (int n)"
  have q0: "0 \<le> ?q" by simp
  have q1: "?q \<le> 1" using assms by (simp add: divide_le_eq_1)
  have r0: "0 \<le> round_double ?q" using q0 by (rule round_double_nonneg)
  have r1: "round_double ?q \<le> 1" using q0 q1 by (rule round_double_le_1)
  have p0: "0 \<le> round_double ?q * 100" using r0 by simp
  have p1: "round_double ?q * 100 \<le> 100" using r1 by simp
  show "0 \<le> float_mul (int_truediv (int c) (int n)) 100"
    unfolding float_mul_def int_truediv_def using p0 by (rule round_double_nonneg)
  show "float_mul (int_truediv (int c) (int n)) 100 \<le> 100"
    unfolding float_mul_def int_truediv_def using p0 p1 by (rule round_double_le_100)
qed

text \<open>
  Claim C5. \<open>check_error_rate\<close> returns \<^verbatim>\<open>None\<close> exactly when the window holds fewer than
  10 statuses. Otherwise it returns the float \<^verbatim>\<open>errors / len * 100\<close>, where \<open>errors\<close> counts
  the statuses from 500 up to but not including 600, and that float lies between 0 and 100.
\<close>

theorem check_error_rate_defined_and_bounded:
  "(check_error_rate s = None \<longleftrightarrow> length (items (rolling_statuses s)) < 10) \<and>
   (10 \<le> length (items (rolling_statuses s)) \<longrightarrow>
      (\<exists>rate. check_error_rate s = Some rate \<and>
         rate = float_mul
                  (int_truediv
                     (int (length (filter (\<lambda>x. 500 \<le> x \<and> x < 600) (items (rolling_statuses s)))))
                     (int (length (items (rolling_statuses s)))))
                  100 \<and>
         0 \<le> rate \<and> rate \<le> 100))"
proof -
  let ?xs = "items (rolling_statuses s)"
  let ?c = "length (filter (\<lambda>x. 500 \<le> x \<and> x < 600) ?xs)"
  have a: "check_error_rate s = None \<longleftrightarrow> length ?xs < 10"
    by (simp add: check_error_rate_eq)
  have b: "\<exists>rate. check_error_rate s = Some rate \<and>
             rate = float_mul (int_truediv (int ?c) (int (length ?xs))) 100 \<and>
             0 \<le> rate \<and> rate \<le> 100" if "10 \<le> length ?xs"
  proof -
    from that have pos: "0 < length ?xs" by linarith
    have le: "?c \<le> length ?xs" by (rule length_filter_le)
    from that have "check_error_rate s =
        Some (float_mul (int_truediv (int ?c) (int (length ?xs))) 100)"
      by (simp add: check_error_rate_eq)
    with percentage_bounds [OF le pos] show ?thesis by simp
  qed
  from a b show ?thesis by blast
qed

lemma five_percent: "float_mul (int_truediv 1 20) 100 = 5"
  by code_simp

theorem check_error_rate_defined_and_bounded_witness:
  "10 \<le> length (items (rolling_statuses
      (fresh_state 20\<lparr>rolling_statuses := \<lparr>items = replicate 19 200 @ [500], maxlen = 20\<rparr>\<rparr>))) \<and>
   check_error_rate
      (fresh_state 20\<lparr>rolling_statuses := \<lparr>items = replicate 19 200 @ [500], maxlen = 20\<rparr>\<rparr>)
     = Some 5 \<and>
   length (items (rolling_statuses (fresh_state 20))) < 10 \<and>
   check_error_rate (fresh_state 20) = None"
proof -
  let ?s = "fresh_state 20\<lparr>rolling_statuses := \<lparr>items = replicate 19 200 @ [500], maxlen = 20\<rparr>\<rparr>"
  have l: "length (items (rolling_statuses ?s)) = 20" by simp
  have c: "length (filter (\<lambda>x. 500 \<le> x \<and> x < 600) (items (rolling_statuses ?s))) = 1"
    by simp
  have z: "length (items (rolling_statuses (fresh_state 20))) = 0"
    by (simp add: fresh_state_def)
  from check_error_rate_defined_and_bounded [of ?s]
  have "check_error_rate ?s = Some 5"
    unfolding l c by (simp add: five_percent)
  moreover from check_error_rate_defined_and_bounded [of "fresh_state 20"]
  have "check_error_rate (fresh_state 20) = None"
    unfolding z by simp
  ultimately show ?thesis using l z by simp
qed

subsection \<open>The error-rate alert\<close>

lemma message_of_outcome [simp]: "message_of (outcome cfg w m tr) = Some m"
  by (simp add: outcome_def)

lemma check_error_rate_window:
  "rolling_statuses s = rolling_statuses s' \<Longrightarrow> check_error_rate s = check_error_rate s'"
  by (simp add: check_error_rate_def)

text \<open>
  Claim C6. For every handled record, let \<open>s1\<close> be the state when the error-rate block
  starts: the window is updated (the pool block leaves it alone). Whenever
  \<open>check_error_rate\<close> is defined there and \<^verbatim>\<open>>=\<close> the threshold, the block acts, on every
  such line: past the cooldown it hands \<open>post_slack\<close> an alert with that rate, the length
  of the window and the tracked pool; inside the cooldown it prints the cooldown notice.
  When the rate is undefined or below the threshold nothing happens. With a window of 20
  and a threshold of 2.0, a window of 19 statuses 200 and a pushed status 500 give the rate
  5.0, which is over the threshold, and a window length of 20.
\<close>

theorem high_error_rate_alert:
  fixes cfg :: config and w :: world and r :: log_record and s :: state
  defines "s1 \<equiv> detect_pool_flip cfg w r (update_rolling_window cfg r s)"
  shows
    "rolling_statuses s1 = rolling_statuses (update_rolling_window cfg r s) \<and>
     (\<forall>rate. check_error_rate s1 = Some rate \<and> float_ge rate (ERROR_RATE_THRESHOLD cfg) \<longrightarrow>
        (\<exists>e. trace (handle_record cfg w r s) = trace s1 @ [e] \<and>
           (if ALERT_COOLDOWN_SEC cfg \<le> clock w (clock_calls s1) - get_alert_time s1 ''error_rate''
            then e = outcome cfg w
                       (ErrorRateMsg rate (length (items (rolling_statuses s1))) (last_seen_pool s1))
                       (trace s1) \<and>
                 message_of e =
                   Some (ErrorRateMsg rate (length (items (rolling_statuses s1))) (last_seen_pool s1))
            else e = ErrorRateCooldown))) \<and>
     (check_error_rate s1 = None \<or>
      (\<exists>rate. check_error_rate s1 = Some rate \<and> \<not> float_ge rate (ERROR_RATE_THRESHOLD cfg)) \<longrightarrow>
        handle_record cfg w r s = s1) \<and>
     (WINDOW_SIZE cfg = 20 \<and> maxlen (rolling_statuses s) = 20 \<and>
      items (rolling_statuses s) = replicate 19 200 \<and> status r = 500 \<and>
      ERROR_RATE_THRESHOLD cfg = Finite 2 \<longrightarrow>
        check_error_rate s1 = Some 5 \<and> float_ge 5 (ERROR_RATE_THRESHOLD cfg) \<and>
        length (items (rolling_statuses s1)) = 20)"
proof -
  have h: "handle_record cfg w r s = alert_error_rate cfg w s1"
    by (simp add: handle_record_def s1_def)
  have a: "rolling_statuses s1 = rolling_statuses (update_rolling_window cfg r s)"
    by (simp add: s1_def)
  have b: "\<exists>e. trace (handle_record cfg w r s) = trace s1 @ [e] \<and>
           (if ALERT_COOLDOWN_SEC cfg \<le> clock w (clock_calls s1) - get_alert_time s1 ''error_rate''
            then e = outcome cfg w
                       (ErrorRateMsg rate (length (items (rolling_statuses s1))) (last_seen_pool s1))
                       (trace s1) \<and>
                 message_of e =
                   Some (ErrorRateMsg rate (length (items (rolling_statuses s1))) (last_seen_pool s1))
            else e = ErrorRateCooldown)"
    if "check_error_rate s1 = Some rate" and "float_ge rate (ERROR_RATE_THRESHOLD cfg)" for rate
    unfolding h alert_error_rate_fire [OF that] by (simp add: Let_def)
  have c: "handle_record cfg w r s = s1"
    if "check_error_rate s1 = None \<or>
        (\<exists>rate. check_error_rate s1 = Some rate \<and> \<not> float_ge rate (ERROR_RATE_THRESHOLD cfg))"
    unfolding h using that by (rule alert_error_rate_quiet)
  have d: "check_error_rate s1 = Some 5 \<and> float_ge 5 (ERROR_RATE_THRESHOLD cfg) \<and>
           length (items (rolling_statuses s1)) = 20"
    if "WINDOW_SIZE cfg = 20" and "maxlen (rolling_statuses s) = 20"
      and "items (rolling_statuses s) = replicate 19 200" and "status r = 500"
      and "ERROR_RATE_THRESHOLD cfg = Finite 2"
  proof -
    have it: "items (rolling_statuses s1) = replicate 19 200 @ [500]"
      unfolding a using that
      by (simp add: update_rolling_window_def items_deque_append)
    have "check_error_rate s1 = Some (float_mul (int_truediv 1 20) 100)"
      by (simp add: check_error_rate_eq it)
    with that it show ?thesis by (simp add: five_percent)
  qed
  from a b c d show ?thesis by blast
qed

theorem high_error_rate_alert_witness:
  "WINDOW_SIZE (default_cfg\<lparr>WINDOW_SIZE := 20\<rparr>) = 20 \<and>
   ERROR_RATE_THRESHOLD (default_cfg\<lparr>WINDOW_SIZE := 20\<rparr>) = Finite 2 \<and>
   maxlen (rolling_statuses
     (handle_lines (default_cfg\<lparr>WINDOW_SIZE := 20\<rparr>) ascii_ucd (ticking 1700000000 True)
        (replicate 19 line_blue) (fresh_state 20))) = 20 \<and>
   items (rolling_statuses
     (handle_lines (default_cfg\<lparr>WINDOW_SIZE := 20\<rparr>) ascii_ucd (ticking 1700000000 True)
        (replicate 19 line_blue) (fresh_state 20))) = replicate 19 200 \<and>
   status (extract_fields ascii_ucd line_500) = 500 \<and>
   check_error_rate
     (detect_pool_flip (default_cfg\<lparr>WINDOW_SIZE := 20\<rparr>) (ticking 1700000000 True)
        (extract_fields ascii_ucd line_500)
        (update_rolling_window (default_cfg\<lparr>WINDOW_SIZE := 20\<rparr>)
           (extract_fields ascii_ucd line_500)
           (handle_lines (default_cfg\<lparr>WINDOW_SIZE := 20\<rparr>) ascii_ucd (ticking 1700000000 True)
              (replicate 19 line_blue) (fresh_state 20)))) = Some 5 \<and>
   (\<exists>e. trace
          (handle_record (default_cfg\<lparr>WINDOW_SIZE := 20\<rparr>) (ticking 1700000000 True)
             (extract_fields ascii_ucd line_500)
             (handle_lines (default_cfg\<lparr>WINDOW_SIZE := 20\<rparr>) ascii_ucd (ticking 1700000000 True)
                (replicate 19 line_blue) (fresh_state 20))) =
        trace
          (detect_pool_flip (default_cfg\<lparr>WINDOW_SIZE := 20\<rparr>) (ticking 1700000000 True)
             (extract_fields ascii_ucd line_500)
             (update_rolling_window (default_cfg\<lparr>WINDOW_SIZE := 20\<rparr>)
                (extract_fields ascii_ucd line_500)
                (handle_lines (default_cfg\<lparr>WINDOW_SIZE := 20\<rparr>) ascii_ucd
                   (ticking 1700000000 True) (replicate 19 line_blue) (fresh_state 20)))) @ [e] \<and>
        (e = ErrorRateCooldown \<or>
         (\<exists>p. message_of e = Some (ErrorRateMsg 5 20 p))))"
proof -
  let ?cfg = "default_cfg\<lparr>WINDOW_SIZE := 20\<rparr>"
  let ?w = "ticking 1700000000 True"
  let ?r = "extract_fields ascii_ucd line_500"
  let ?s = "handle_lines ?cfg ascii_ucd ?w (replicate 19 line_blue) (fresh_state 20)"
  let ?s1 = "detect_pool_flip ?cfg ?w ?r (update_rolling_window ?cfg ?r ?s)"
  have c: "WINDOW_SIZE ?cfg = 20" and th: "ERROR_RATE_THRESHOLD ?cfg = Finite 2"
    by (simp_all add: default_cfg_def)
  have m: "maxlen (rolling_statuses ?s) = 20"
    by (simp add: maxlen_handle_lines fresh_state_def)
  have "items (rolling_statuses (handle_lines ?cfg ascii_ucd ?w (replicate 19 line_blue)
            (fresh_state (nat (WINDOW_SIZE ?cfg))))) =
          drop (length (replicate 19 line_blue) - nat (WINDOW_SIZE ?cfg))
            (map (\<lambda>l. status (extract_fields ascii_ucd l)) (replicate 19 line_blue))"
    by (rule window_contents)
  then have it: "items (rolling_statuses ?s) = replicate 19 200"
    unfolding c by (simp add: extract_line_blue)
  have st: "status ?r = 500" by (simp add: extract_line_500)
  note inst = high_error_rate_alert [of ?cfg ?w ?r ?s]
  from inst c m it st th have rate: "check_error_rate ?s1 = Some 5"
    and ge: "float_ge 5 (ERROR_RATE_THRESHOLD ?cfg)"
    and len: "length (items (rolling_statuses ?s1)) = 20"
    by blast+
  from inst rate ge obtain e where e: "trace (handle_record ?cfg ?w ?r ?s) = trace ?s1 @ [e]"
    and alt: "if ALERT_COOLDOWN_SEC ?cfg \<le> clock ?w (clock_calls ?s1) - get_alert_time ?s1 ''error_rate''
            then e = outcome ?cfg ?w
                       (ErrorRateMsg 5 (length (items (rolling_statuses ?s1))) (last_seen_pool ?s1))
                       (trace ?s1) \<and>
                 message_of e =
                   Some (ErrorRateMsg 5 (length (items (rolling_statuses ?s1))) (last_seen_pool ?s1))
            else e = ErrorRateCooldown"
    by blast
  from alt have "e = ErrorRateCooldown \<or> (\<exists>p. message_of e = Some (ErrorRateMsg 5 20 p))"
    unfolding len by (auto split: if_splits)
  with e c th m it st rate show ?thesis by blast
qed

subsection \<open>The order of the suppression gates\<close>

text \<open>
  Claim C1 says that maintenance mode and a missing webhook are checked before the
  cooldown. In the source the cooldown test of \<^verbatim>\<open>handle_line\<close> comes first and
  \<open>post_slack\<close>, which holds the other two tests, is only called behind it. With
  maintenance mode on and a cooldown longer than the clock reading, a failover is logged
  as skipped by the cooldown, not as suppressed by maintenance mode.
\<close>

theorem gate_order_counterexample:
  "MAINTENANCE_MODE (default_cfg\<lparr>MAINTENANCE_MODE := True, ALERT_COOLDOWN_SEC := 2000000000\<rparr>) \<and>
   trace (handle_lines
            (default_cfg\<lparr>MAINTENANCE_MODE := True, ALERT_COOLDOWN_SEC := 2000000000\<rparr>)
            ascii_ucd (ticking 1700000000 True) [line_blue, line_green] (fresh_state 200)) =
     [FailoverCooldown]"
  by (simp add: handle_lines_def handle_line_def handle_record_def extract_line_blue
      extract_line_green update_rolling_window_def deque_append_def detect_pool_flip_def
      alert_error_rate_def check_error_rate_def now_ts_def get_alert_time_def fresh_state_def
      ticking_def default_cfg_def py_def Let_def)

text \<open>
  Claim C1, as the code has it. For every alert of either kind the cooldown is consulted
  first: inside the cooldown the only effect is the cooldown notice, whatever the
  maintenance flag and the webhook are. An alert past the cooldown reaches \<open>post_slack\<close>,
  which checks maintenance mode first, then the missing webhook, and only then posts.
\<close>

theorem gate_order_cooldown_first:
  "(last_seen_pool s = Some p \<and> pool r \<noteq> p \<longrightarrow>
      trace (detect_pool_flip cfg w r s) =
        trace s @
        [if \<not> ALERT_COOLDOWN_SEC cfg \<le> clock w (clock_calls s) - get_alert_time s ''failover''
           then FailoverCooldown
         else if MAINTENANCE_MODE cfg
           then MaintenanceSuppressed (FailoverMsg p (pool r) (release r) (upstream_addr r))
         else if no_webhook cfg
           then NoWebhookSkipped (FailoverMsg p (pool r) (release r) (upstream_addr r))
         else if transport w (post_calls (trace s))
           then Posted (FailoverMsg p (pool r) (release r) (upstream_addr r))
         else PostFailed (FailoverMsg p (pool r) (release r) (upstream_addr r))]) \<and>
   (check_error_rate s = Some rate \<and> float_ge rate (ERROR_RATE_THRESHOLD cfg) \<longrightarrow>
      trace (alert_error_rate cfg w s) =
        trace s @
        [if \<not> ALERT_COOLDOWN_SEC cfg \<le> clock w (clock_calls s) - get_alert_time s ''error_rate''
           then ErrorRateCooldown
         else if MAINTENANCE_MODE cfg
           then MaintenanceSuppressed
                  (ErrorRateMsg rate (length (items (rolling_statuses s))) (last_seen_pool s))
         else if no_webhook cfg
           then NoWebhookSkipped
                  (ErrorRateMsg rate (length (items (rolling_statuses s))) (last_seen_pool s))
         else if transport w (post_calls (trace s))
           then Posted (ErrorRateMsg rate (length (items (rolling_statuses s))) (last_seen_pool s))
         else PostFailed
                (ErrorRateMsg rate (length (items (rolling_statuses s))) (last_seen_pool s))])"
proof -
  have a: "trace (detect_pool_flip cfg w r s) =
        trace s @
        [if \<not> ALERT_COOLDOWN_SEC cfg \<le> clock w (clock_calls s) - get_alert_time s ''failover''
           then FailoverCooldown
         else if MAINTENANCE_MODE cfg
           then MaintenanceSuppressed (FailoverMsg p (pool r) (release r) (upstream_addr r))
         else if no_webhook cfg
           then NoWebhookSkipped (FailoverMsg p (pool r) (release r) (upstream_addr r))
         else if transport w (post_calls (trace s))
           then Posted (FailoverMsg p (pool r) (release r) (upstream_addr r))
         else PostFailed (FailoverMsg p (pool r) (release r) (upstream_addr r))]"
    if "last_seen_pool s = Some p" and "pool r \<noteq> p"
    unfolding detect_pool_flip_change [OF that] by (simp add: Let_def outcome_def)
  have b: "trace (alert_error_rate cfg w s) =
        trace s @
        [if \<not> ALERT_COOLDOWN_SEC cfg \<le> clock w (clock_calls s) - get_alert_time s ''error_rate''
           then ErrorRateCooldown
         else if MAINTENANCE_MODE cfg
           then MaintenanceSuppressed
                  (ErrorRateMsg rate (length (items (rolling_statuses s))) (last_seen_pool s))
         else if no_webhook cfg
           then NoWebhookSkipped
                  (ErrorRateMsg rate (length (items (rolling_statuses s))) (last_seen_pool s))
         else if transport w (post_calls (trace s))
           then Posted (ErrorRateMsg rate (length (items (rolling_statuses s))) (last_seen_pool s))
         else PostFailed
                (ErrorRateMsg rate (length (items (rolling_statuses s))) (last_seen_pool s))]"
    if "check_error_rate s = Some rate" and "float_ge rate (ERROR_RATE_THRESHOLD cfg)"
    unfolding alert_error_rate_fire [OF that] by (simp add: Let_def outcome_def)
  from a b show ?thesis by blast
qed

theorem gate_order_cooldown_first_witness:
  "last_seen_pool (fresh_state 200\<lparr>last_seen_pool := Some (py ''blue'')\<rparr>) = Some (py ''blue'') \<and>
   pool (extract_fields ascii_ucd line_green) \<noteq> py ''blue'' \<and>
   trace (detect_pool_flip
            (default_cfg\<lparr>MAINTENANCE_MODE := True, ALERT_COOLDOWN_SEC := 2000000000\<rparr>)
            (ticking 1700000000 True) (extract_fields ascii_ucd line_green)
            (fresh_state 200\<lparr>last_seen_pool := Some (py ''blue'')\<rparr>)) = [FailoverCooldown] \<and>
   trace (detect_pool_flip (default_cfg\<lparr>MAINTENANCE_MODE := True\<rparr>)
            (ticking 1700000000 True) (extract_fields ascii_ucd line_green)
            (fresh_state 200\<lparr>last_seen_pool := Some (py ''blue'')\<rparr>)) =
     [MaintenanceSuppressed
        (FailoverMsg (py ''blue'') (py ''green'') (py ''v2'') (py ''10.0.1.3:3000''))] \<and>
   check_error_rate
     (fresh_state 20\<lparr>rolling_statuses := \<lparr>items = replicate 19 200 @ [500], maxlen = 20\<rparr>\<rparr>)
     = Some 5 \<and>
   float_ge 5 (ERROR_RATE_THRESHOLD
     (default_cfg\<lparr>MAINTENANCE_MODE := True, ALERT_COOLDOWN_SEC := 2000000000\<rparr>)) \<and>
   trace (alert_error_rate
            (default_cfg\<lparr>MAINTENANCE_MODE := True, ALERT_COOLDOWN_SEC := 2000000000\<rparr>)
            (ticking 1700000000 True)
            (fresh_state 20\<lparr>rolling_statuses :=
               \<lparr>items = replicate 19 200 @ [500], maxlen = 20\<rparr>\<rparr>)) = [ErrorRateCooldown]"
proof -
  let ?late = "default_cfg\<lparr>MAINTENANCE_MODE := True, ALERT_COOLDOWN_SEC := 2000000000\<rparr>"
  let ?maint = "default_cfg\<lparr>MAINTENANCE_MODE := True\<rparr>"
  let ?w = "ticking 1700000000 True"
  let ?r = "extract_fields ascii_ucd line_green"
  let ?sA = "fresh_state 200\<lparr>last_seen_pool := Some (py ''blue'')\<rparr>"
  let ?sB = "fresh_state 20\<lparr>rolling_statuses := \<lparr>items = replicate 19 200 @ [500], maxlen = 20\<rparr>\<rparr>"
  have p: "last_seen_pool ?sA = Some (py ''blue'')" by simp
  have q: "pool ?r \<noteq> py ''blue''" by (simp add: extract_line_green py_def)
  have rate: "check_error_rate ?sB = Some 5"
    by (simp add: check_error_rate_eq five_percent)
  have ge: "float_ge 5 (ERROR_RATE_THRESHOLD ?late)" by (simp add: default_cfg_def)
  have tA: "trace ?sA = []" "clock_calls ?sA = 0" "get_alert_time ?sA ''failover'' = 0"
    by (simp_all add: fresh_state_def get_alert_time_def)
  have tB: "trace ?sB = []" "clock_calls ?sB = 0" "get_alert_time ?sB ''error_rate'' = 0"
    by (simp_all add: fresh_state_def get_alert_time_def)
  have c1: "trace (detect_pool_flip ?late ?w ?r ?sA) = [FailoverCooldown]"
    using gate_order_cooldown_first [of ?sA "py ''blue''" ?r ?late ?w 5] p q
    unfolding tA by (simp add: default_cfg_def ticking_def)
  have c2: "trace (detect_pool_flip ?maint ?w ?r ?sA) =
     [MaintenanceSuppressed
        (FailoverMsg (py ''blue'') (py ''green'') (py ''v2'') (py ''10.0.1.3:3000''))]"
    using gate_order_cooldown_first [of ?sA "py ''blue''" ?r ?maint ?w 5] p q
    unfolding tA by (simp add: default_cfg_def ticking_def extract_line_green)
  have c3: "trace (alert_error_rate ?late ?w ?sB) = [ErrorRateCooldown]"
    using gate_order_cooldown_first [of ?sB "py ''blue''" ?r ?late ?w 5] rate ge
    unfolding tB by (simp add: default_cfg_def ticking_def)
  from p q c1 c2 rate ge c3 show ?thesis by blast
qed

subsection \<open>The cooldown advances only when the alert was delivered\<close>

lemma get_alert_time_cong:
  "last_alert_time s = last_alert_time s' \<Longrightarrow> get_alert_time s key = get_alert_time s' key"
  by (simp add: get_alert_time_def)

text \<open>
  Claim C2. Take an alert of either kind that is past the cooldown, with maintenance mode
  off and a webhook configured, so that \<^verbatim>\<open>requests.post\<close> is called. If the call goes
  through, \<open>last_alert_time\<close> of that kind becomes the time read for this alert. If the
  call fails, \<open>last_alert_time\<close> is unchanged; then a later event of the same kind, read
  at a time that is not earlier and with the time stamp still as the failure left it,
  passes the cooldown again and makes another call to the webhook.
\<close>

theorem cooldown_advances_only_on_success:
  assumes "\<not> MAINTENANCE_MODE cfg" and "\<not> no_webhook cfg"
  shows
    "(last_seen_pool s = Some p \<and> pool r \<noteq> p \<and>
      ALERT_COOLDOWN_SEC cfg \<le> clock w (clock_calls s) - get_alert_time s ''failover'' \<longrightarrow>
        (transport w (post_calls (trace s)) \<longrightarrow>
           trace (detect_pool_flip cfg w r s) =
             trace s @ [Posted (FailoverMsg p (pool r) (release r) (upstream_addr r))] \<and>
           last_alert_time (detect_pool_flip cfg w r s) =
             (last_alert_time s)(''failover'' \<mapsto> clock w (clock_calls s))) \<and>
        (\<not> transport w (post_calls (trace s)) \<longrightarrow>
           trace (detect_pool_flip cfg w r s) =
             trace s @ [PostFailed (FailoverMsg p (pool r) (release r) (upstream_addr r))] \<and>
           last_alert_time (detect_pool_flip cfg w r s) = last_alert_time s \<and>
           (last_seen_pool s2 = Some p2 \<and> pool r2 \<noteq> p2 \<and>
            get_alert_time s2 ''failover'' =
              get_alert_time (detect_pool_flip cfg w r s) ''failover'' \<and>
            clock w (clock_calls s) \<le> clock w (clock_calls s2) \<longrightarrow>
              is_post (last (trace (detect_pool_flip cfg w r2 s2)))))) \<and>
     (check_error_rate s = Some rate \<and> float_ge rate (ERROR_RATE_THRESHOLD cfg) \<and>
      ALERT_COOLDOWN_SEC cfg \<le> clock w (clock_calls s) - get_alert_time s ''error_rate'' \<longrightarrow>
        (transport w (post_calls (trace s)) \<longrightarrow>
           trace (alert_error_rate cfg w s) =
             trace s @
               [Posted (ErrorRateMsg rate (length (items (rolling_statuses s))) (last_seen_pool s))] \<and>
           last_alert_time (alert_error_rate cfg w s) =
             (last_alert_time s)(''error_rate'' \<mapsto> clock w (clock_calls s))) \<and>
        (\<not> transport w (post_calls (trace s)) \<longrightarrow>
           trace (alert_error_rate cfg w s) =
             trace s @
               [PostFailed
                  (ErrorRateMsg rate (length (items (rolling_statuses s))) (last_seen_pool s))] \<and>
           last_alert_time (alert_error_rate cfg w s) = last_alert_time s \<and>
           (check_error_rate s2 = Some rate2 \<and> float_ge rate2 (ERROR_RATE_THRESHOLD cfg) \<and>
            get_alert_time s2 ''error_rate'' =
              get_alert_time (alert_error_rate cfg w s) ''error_rate'' \<and>
            clock w (clock_calls s) \<le> clock w (clock_calls s2) \<longrightarrow>
              is_post (last (trace (alert_error_rate cfg w s2))))))"
proof -
  have out: "outcome cfg w m tr = (if transport w (post_calls tr) then Posted m else PostFailed m)"
    and del: "delivered cfg w tr = transport w (post_calls tr)" for m tr
    using assms by (simp_all add: outcome_def delivered_def)
  have post: "is_post (outcome cfg w m tr)" for m tr
    by (simp add: out)
  have f_ok: "trace (detect_pool_flip cfg w r s) =
             trace s @ [Posted (FailoverMsg p (pool r) (release r) (upstream_addr r))] \<and>
           last_alert_time (detect_pool_flip cfg w r s) =
             (last_alert_time s)(''failover'' \<mapsto> clock w (clock_calls s))"
    if "last_seen_pool s = Some p" "pool r \<noteq> p"
      "ALERT_COOLDOWN_SEC cfg \<le> clock w (clock_calls s) - get_alert_time s ''failover''"
      "transport w (post_calls (trace s))"
    unfolding detect_pool_flip_change [OF that(1,2)] using that(3,4)
    by (simp add: Let_def out del)
  have f_fail: "trace (detect_pool_flip cfg w r s) =
             trace s @ [PostFailed (FailoverMsg p (pool r) (release r) (upstream_addr r))] \<and>
           last_alert_time (detect_pool_flip cfg w r s) = last_alert_time s"
    if "last_seen_pool s = Some p" "pool r \<noteq> p"
      "ALERT_COOLDOWN_SEC cfg \<le> clock w (clock_calls s) - get_alert_time s ''failover''"
      "\<not> transport w (post_calls (trace s))"
    unfolding detect_pool_flip_change [OF that(1,2)] using that(3,4)
    by (simp add: Let_def out del)
  have f_retry: "is_post (last (trace (detect_pool_flip cfg w r2 s2)))"
    if "last_alert_time (detect_pool_flip cfg w r s) = last_alert_time s"
      "ALERT_COOLDOWN_SEC cfg \<le> clock w (clock_calls s) - get_alert_time s ''failover''"
      "last_seen_pool s2 = Some p2" "pool r2 \<noteq> p2"
      "get_alert_time s2 ''failover'' = get_alert_time (detect_pool_flip cfg w r s) ''failover''"
      "clock w (clock_calls s) \<le> clock w (clock_calls s2)"
  proof -
    from that(1,5) have "get_alert_time s2 ''failover'' = get_alert_time s ''failover''"
      by (simp add: get_alert_time_def)
    with that(2,6)
    have "ALERT_COOLDOWN_SEC cfg \<le> clock w (clock_calls s2) - get_alert_time s2 ''failover''"
      by simp
    then show ?thesis
      unfolding detect_pool_flip_change [OF that(3,4)] by (simp add: Let_def post)
  qed
  have e_ok: "trace (alert_error_rate cfg w s) =
             trace s @
               [Posted (ErrorRateMsg rate (length (items (rolling_statuses s))) (last_seen_pool s))] \<and>
           last_alert_time (alert_error_rate cfg w s) =
             (last_alert_time s)(''error_rate'' \<mapsto> clock w (clock_calls s))"
    if "check_error_rate s = Some rate" "float_ge rate (ERROR_RATE_THRESHOLD cfg)"
      "ALERT_COOLDOWN_SEC cfg \<le> clock w (clock_calls s) - get_alert_time s ''error_rate''"
      "transport w (post_calls (trace s))"
    unfolding alert_error_rate_fire [OF that(1,2)] using that(3,4)
    by (simp add: Let_def out del)
  have e_fail: "trace (alert_error_rate cfg w s) =
             trace s @
               [PostFailed
                  (ErrorRateMsg rate (length (items (rolling_statuses s))) (last_seen_pool s))] \<and>
           last_alert_time (alert_error_rate cfg w s) = last_alert_time s"
    if "check_error_rate s = Some rate" "float_ge rate (ERROR_RATE_THRESHOLD cfg)"
      "ALERT_COOLDOWN_SEC cfg \<le> clock w (clock_calls s) - get_alert_time s ''error_rate''"
      "\<not> transport w (post_calls (trace s))"
    unfolding alert_error_rate_fire [OF that(1,2)] using that(3,4)
    by (simp add: Let_def out del)
  have e_retry: "is_post (last (trace (alert_error_rate cfg w s2)))"
    if "last_alert_time (alert_error_rate cfg w s) = last_alert_time s"
      "ALERT_COOLDOWN_SEC cfg \<le> clock w (clock_calls s) - get_alert_time s ''error_rate''"
      "check_error_rate s2 = Some rate2" "float_ge rate2 (ERROR_RATE_THRESHOLD cfg)"
      "get_alert_time s2 ''error_rate'' = get_alert_time (alert_error_rate cfg w s) ''error_rate''"
      "clock w (clock_calls s) \<le> clock w (clock_calls s2)"
  proof -
    from that(1,5) have "get_alert_time s2 ''error_rate'' = get_alert_time s ''error_rate''"
      by (simp add: get_alert_time_def)
    with that(2,6)
    have "ALERT_COOLDOWN_SEC cfg \<le> clock w (clock_calls s2) - get_alert_time s2 ''error_rate''"
      by simp
    then show ?thesis
      unfolding alert_error_rate_fire [OF that(3,4)] by (simp add: Let_def post)
  qed
  show ?thesis
    using f_ok f_fail f_retry e_ok e_fail e_retry by blast
qed

theorem cooldown_advances_only_on_success_witness:
  "\<not> MAINTENANCE_MODE default_cfg \<and> \<not> no_webhook default_cfg \<and>
   last_seen_pool (fresh_state 200\<lparr>last_seen_pool := Some (py ''blue'')\<rparr>) = Some (py ''blue'') \<and>
   pool (extract_fields ascii_ucd line_green) \<noteq> py ''blue'' \<and>
   \<not> transport (ticking 1700000000 False)
       (post_calls (trace (fresh_state 200\<lparr>last_seen_pool := Some (py ''blue'')\<rparr>))) \<and>
   last_alert_time
     (detect_pool_flip default_cfg (ticking 1700000000 False) (extract_fields ascii_ucd line_green)
        (fresh_state 200\<lparr>last_seen_pool := Some (py ''blue'')\<rparr>)) =
     last_alert_time (fresh_state 200\<lparr>last_seen_pool := Some (py ''blue'')\<rparr>) \<and>
   is_post (last (trace
     (detect_pool_flip default_cfg (ticking 1700000000 False) (extract_fields ascii_ucd line_blue)
        (detect_pool_flip default_cfg (ticking 1700000000 False)
           (extract_fields ascii_ucd line_green)
           (fresh_state 200\<lparr>last_seen_pool := Some (py ''blue'')\<rparr>))))) \<and>
   last_alert_time
     (detect_pool_flip default_cfg (ticking 1700000000 True) (extract_fields ascii_ucd line_green)
        (fresh_state 200\<lparr>last_seen_pool := Some (py ''blue'')\<rparr>)) ''failover'' =
     Some 1700000000 \<and>
   check_error_rate
     (fresh_state 20\<lparr>rolling_statuses := \<lparr>items = replicate 19 200 @ [500], maxlen = 20\<rparr>\<rparr>)
     = Some 5 \<and>
   last_alert_time
     (alert_error_rate default_cfg (ticking 1700000000 False)
        (fresh_state 20\<lparr>rolling_statuses := \<lparr>items = replicate 19 200 @ [500], maxlen = 20\<rparr>\<rparr>))
     ''error_rate'' = Some 0 \<and>
   last_alert_time
     (alert_error_rate default_cfg (ticking 1700000000 True)
        (fresh_state 20\<lparr>rolling_statuses := \<lparr>items = replicate 19 200 @ [500], maxlen = 20\<rparr>\<rparr>))
     ''error_rate'' = Some 1700000000"
proof -
  let ?cfg = default_cfg
  let ?bad = "ticking 1700000000 False"
  let ?good = "ticking 1700000000 True"
  let ?g = "extract_fields ascii_ucd line_green"
  let ?b = "extract_fields ascii_ucd line_blue"
  let ?sA = "fresh_state 200\<lparr>last_seen_pool := Some (py ''blue'')\<rparr>"
  let ?sB = "fresh_state 20\<lparr>rolling_statuses := \<lparr>items = replicate 19 200 @ [500], maxlen = 20\<rparr>\<rparr>"
  let ?s' = "detect_pool_flip ?cfg ?bad ?g ?sA"
  have m: "\<not> MAINTENANCE_MODE ?cfg" and u: "\<not> no_webhook ?cfg"
    by (simp_all add: default_cfg_def no_webhook_def)
  have p: "last_seen_pool ?sA = Some (py ''blue'')" by simp
  have q: "pool ?g \<noteq> py ''blue''" by (simp add: extract_line_green py_def)
  have q2: "pool ?b \<noteq> py ''green''" by (simp add: extract_line_blue py_def)
  have tA: "trace ?sA = []" "clock_calls ?sA = 0" "get_alert_time ?sA ''failover'' = 0"
    "last_alert_time ?sA ''failover'' = Some 0"
    by (simp_all add: fresh_state_def get_alert_time_def)
  have tB: "trace ?sB = []" "clock_calls ?sB = 0" "get_alert_time ?sB ''error_rate'' = 0"
    "last_alert_time ?sB ''error_rate'' = Some 0"
    by (simp_all add: fresh_state_def get_alert_time_def)
  have cd: "ALERT_COOLDOWN_SEC ?cfg = 300" by (simp add: default_cfg_def)
  have th: "ERROR_RATE_THRESHOLD ?cfg = Finite 2" by (simp add: default_cfg_def)
  have fail: "\<not> transport ?bad n" and ok: "transport ?good n"
    and ck: "clock ?bad n = 1700000000 + int n" "clock ?good n = 1700000000 + int n" for n
    by (simp_all add: ticking_def)
  have s': "last_seen_pool ?s' = Some (py ''green'')" "clock_calls ?s' = 1"
    unfolding detect_pool_flip_change [OF p q]
    by (simp_all add: Let_def extract_line_green fresh_state_def)
  have rate: "check_error_rate ?sB = Some 5"
    by (simp add: check_error_rate_eq five_percent)
  note inst_fail =
    cooldown_advances_only_on_success [OF m u, where s = ?sA and p = "py ''blue''" and r = ?g
      and w = ?bad and ?s2.0 = ?s' and ?p2.0 = "py ''green''" and ?r2.0 = ?b
      and rate = 5 and ?rate2.0 = 5]
  note inst_ok =
    cooldown_advances_only_on_success [OF m u, where s = ?sA and p = "py ''blue''" and r = ?g
      and w = ?good and ?s2.0 = ?s' and ?p2.0 = "py ''green''" and ?r2.0 = ?b
      and rate = 5 and ?rate2.0 = 5]
  have a: "last_alert_time ?s' = last_alert_time ?sA"
    using inst_fail p q unfolding tA cd by (simp add: fail ck)
  have b: "is_post (last (trace (detect_pool_flip ?cfg ?bad ?b ?s')))"
    using inst_fail p q q2 s' unfolding tA cd by (simp add: fail ck)
  have c: "last_alert_time (detect_pool_flip ?cfg ?good ?g ?sA) ''failover'' = Some 1700000000"
    using inst_ok p q unfolding tA cd by (simp add: ok ck)
  note inst_fail_B =
    cooldown_advances_only_on_success [OF m u, where s = ?sB and p = "py ''blue''" and r = ?g
      and w = ?bad and ?s2.0 = ?sB and ?p2.0 = "py ''green''" and ?r2.0 = ?b
      and rate = 5 and ?rate2.0 = 5]
  note inst_ok_B =
    cooldown_advances_only_on_success [OF m u, where s = ?sB and p = "py ''blue''" and r = ?g
      and w = ?good and ?s2.0 = ?sB and ?p2.0 = "py ''green''" and ?r2.0 = ?b
      and rate = 5 and ?rate2.0 = 5]
  have d: "last_alert_time (alert_error_rate ?cfg ?bad ?sB) ''error_rate'' = Some 0"
    using inst_fail_B rate unfolding tB cd th by (simp add: fail ck fresh_state_def)
  have e: "last_alert_time (alert_error_rate ?cfg ?good ?sB) ''error_rate'' = Some 1700000000"
    using inst_ok_B rate unfolding tB cd th by (simp add: ok ck fresh_state_def)
  have nf: "\<not> transport ?bad (post_calls (trace ?sA))" by (rule fail)
  from m u p q nf a b c rate d e show ?thesis by blast
qed

subsection \<open>Failover events\<close>

lemma failover_entry_outcome [simp]: "failover_entry (outcome cfg w m tr) = is_failover_msg m"
  by (simp add: outcome_def)

lemma alert_error_rate_keeps:
  "failover_entries (trace (alert_error_rate cfg w s)) = failover_entries (trace s)"
  "last_seen_pool (alert_error_rate cfg w s) = last_seen_pool s"
  "last_release_by_pool (alert_error_rate cfg w s) = last_release_by_pool s"
proof -
  show "failover_entries (trace (alert_error_rate cfg w s)) = failover_entries (trace s)"
  proof (cases "check_error_rate s")
    case None
    then show ?thesis by (simp add: alert_error_rate_quiet)
  next
    case (Some rate)
    then show ?thesis
      by (cases "float_ge rate (ERROR_RATE_THRESHOLD cfg)")
         (simp_all add: alert_error_rate_quiet alert_error_rate_fire Let_def failover_entries_def)
  qed
  show "last_seen_pool (alert_error_rate cfg w s) = last_seen_pool s"
  proof (cases "check_error_rate s")
    case None
    then show ?thesis by (simp add: alert_error_rate_quiet)
  next
    case (Some rate)
    then show ?thesis
      by (cases "float_ge rate (ERROR_RATE_THRESHOLD cfg)")
         (simp_all add: alert_error_rate_quiet alert_error_rate_fire Let_def)
  qed
  show "last_release_by_pool (alert_error_rate cfg w s) = last_release_by_pool s"
  proof (cases "check_error_rate s")
    case None
    then show ?thesis by (simp add: alert_error_rate_quiet)
  next
    case (Some rate)
    then show ?thesis
      by (cases "float_ge rate (ERROR_RATE_THRESHOLD cfg)")
         (simp_all add: alert_error_rate_quiet alert_error_rate_fire Let_def)
  qed
qed

lemma handle_record_first:
  assumes "last_seen_pool s = None"
  shows "failover_entries (trace (handle_record cfg w r s)) = failover_entries (trace s)"
    and "last_seen_pool (handle_record cfg w r s) = Some (pool r)"
    and "last_release_by_pool (handle_record cfg w r s) =
           (last_release_by_pool s)(pool r \<mapsto> release r)"
  using assms
  by (simp_all add: handle_record_def alert_error_rate_keeps detect_pool_flip_first)

lemma handle_record_same:
  assumes "last_seen_pool s = Some (pool r)"
  shows "failover_entries (trace (handle_record cfg w r s)) = failover_entries (trace s)"
    and "last_seen_pool (handle_record cfg w r s) = Some (pool r)"
    and "last_release_by_pool (handle_record cfg w r s) = last_release_by_pool s"
  using assms
  by (simp_all add: handle_record_def alert_error_rate_keeps detect_pool_flip_same)

lemma handle_record_change:
  assumes "last_seen_pool s = Some p" and "pool r \<noteq> p"
  shows "failover_entries (trace (handle_record cfg w r s)) =
           failover_entries (trace s) @
           [if ALERT_COOLDOWN_SEC cfg \<le> clock w (clock_calls s) - get_alert_time s ''failover''
            then outcome cfg w (FailoverMsg p (pool r) (release r) (upstream_addr r)) (trace s)
            else FailoverCooldown]"
    and "last_seen_pool (handle_record cfg w r s) = Some (pool r)"
    and "last_release_by_pool (handle_record cfg w r s) =
           (last_release_by_pool s)(pool r \<mapsto> release r)"
proof -
  let ?u = "update_rolling_window cfg r s"
  have p: "last_seen_pool ?u = Some p" using assms by simp
  have g: "get_alert_time ?u ''failover'' = get_alert_time s ''failover''"
    by (simp add: get_alert_time_def)
  show "failover_entries (trace (handle_record cfg w r s)) =
           failover_entries (trace s) @
           [if ALERT_COOLDOWN_SEC cfg \<le> clock w (clock_calls s) - get_alert_time s ''failover''
            then outcome cfg w (FailoverMsg p (pool r) (release r) (upstream_addr r)) (trace s)
            else FailoverCooldown]"
    unfolding handle_record_def alert_error_rate_keeps detect_pool_flip_change [OF p assms(2)] g
    by (simp add: Let_def failover_entries_def)
  show "last_seen_pool (handle_record cfg w r s) = Some (pool r)"
    unfolding handle_record_def alert_error_rate_keeps detect_pool_flip_change [OF p assms(2)]
    by (simp add: Let_def)
  show "last_release_by_pool (handle_record cfg w r s) =
           (last_release_by_pool s)(pool r \<mapsto> release r)"
    unfolding handle_record_def alert_error_rate_keeps detect_pool_flip_change [OF p assms(2)]
    by (simp add: Let_def)
qed

text \<open>
  Claim C3. An entry of the failover block in the trace is a failover event: it is the
  alert handed to \<open>post_slack\<close>, or the cooldown notice when the flip falls inside the
  cooldown. The first record ever handled starts the tracking and adds no such entry;
  a record of the tracked pool adds none; a record of another pool adds exactly one, for
  the flip from the tracked pool to the new one, and then the new pool is tracked and its
  release recorded. So from the state where nothing is tracked, six lines with the pools
  A, A, A, B, B, A add exactly two entries, at the fourth line for A to B and at the
  sixth for B to A, and the tracked pool runs through A, A, A, B, B, A.
\<close>

theorem failover_events_for_pool_sequence:
  "(last_seen_pool s = None \<longrightarrow>
      failover_entries (trace (handle_record cfg w r s)) = failover_entries (trace s) \<and>
      last_seen_pool (handle_record cfg w r s) = Some (pool r) \<and>
      last_release_by_pool (handle_record cfg w r s) (pool r) = Some (release r)) \<and>
   (last_seen_pool s = Some (pool r) \<longrightarrow>
      failover_entries (trace (handle_record cfg w r s)) = failover_entries (trace s) \<and>
      last_seen_pool (handle_record cfg w r s) = Some (pool r)) \<and>
   (last_seen_pool s = Some p \<and> pool r \<noteq> p \<longrightarrow>
      (\<exists>e. failover_entries (trace (handle_record cfg w r s)) = failover_entries (trace s) @ [e] \<and>
           (if ALERT_COOLDOWN_SEC cfg \<le> clock w (clock_calls s) - get_alert_time s ''failover''
            then message_of e = Some (FailoverMsg p (pool r) (release r) (upstream_addr r))
            else e = FailoverCooldown)) \<and>
      last_seen_pool (handle_record cfg w r s) = Some (pool r) \<and>
      last_release_by_pool (handle_record cfg w r s) (pool r) = Some (release r)) \<and>
   (last_seen_pool s0 = None \<and> A \<noteq> B \<and>
    map (\<lambda>l. pool (extract_fields U l)) ls = [A, A, A, B, B, A] \<longrightarrow>
      (\<exists>e1 e2.
         map (\<lambda>ls'. failover_entries (trace (handle_lines cfg U w ls' s0))) (prefixes ls) =
           map (\<lambda>es. failover_entries (trace s0) @ es) [[], [], [], [], [e1], [e1], [e1, e2]] \<and>
         (if ALERT_COOLDOWN_SEC cfg \<le>
               clock w (clock_calls (handle_lines cfg U w (take 3 ls) s0)) -
               get_alert_time (handle_lines cfg U w (take 3 ls) s0) ''failover''
          then message_of e1 =
                 Some (FailoverMsg A B (release (extract_fields U (ls ! 3)))
                         (upstream_addr (extract_fields U (ls ! 3))))
          else e1 = FailoverCooldown) \<and>
         (if ALERT_COOLDOWN_SEC cfg \<le>
               clock w (clock_calls (handle_lines cfg U w (take 5 ls) s0)) -
               get_alert_time (handle_lines cfg U w (take 5 ls) s0) ''failover''
          then message_of e2 =
                 Some (FailoverMsg B A (release (extract_fields U (ls ! 5)))
                         (upstream_addr (extract_fields U (ls ! 5))))
          else e2 = FailoverCooldown)) \<and>
      map (\<lambda>ls'. last_seen_pool (handle_lines cfg U w ls' s0)) (prefixes ls) =
        [None, Some A, Some A, Some A, Some B, Some B, Some A])"
  (is "?C1 \<and> ?C2 \<and> ?C3 \<and> ?C4")
proof -
  have first: "failover_entries (trace (handle_record cfg w r s)) = failover_entries (trace s) \<and>
      last_seen_pool (handle_record cfg w r s) = Some (pool r) \<and>
      last_release_by_pool (handle_record cfg w r s) (pool r) = Some (release r)"
    if "last_seen_pool s = None"
    using handle_record_first [OF that] by simp
  have same: "failover_entries (trace (handle_record cfg w r s)) = failover_entries (trace s) \<and>
      last_seen_pool (handle_record cfg w r s) = Some (pool r)"
    if "last_seen_pool s = Some (pool r)"
    using handle_record_same [OF that] by simp
  have change: "(\<exists>e. failover_entries (trace (handle_record cfg w r s)) =
             failover_entries (trace s) @ [e] \<and>
           (if ALERT_COOLDOWN_SEC cfg \<le> clock w (clock_calls s) - get_alert_time s ''failover''
            then message_of e = Some (FailoverMsg p (pool r) (release r) (upstream_addr r))
            else e = FailoverCooldown)) \<and>
      last_seen_pool (handle_record cfg w r s) = Some (pool r) \<and>
      last_release_by_pool (handle_record cfg w r s) (pool r) = Some (release r)"
    if "last_seen_pool s = Some p" "pool r \<noteq> p"
    using handle_record_change [OF that, of cfg w] by (simp add: message_of_outcome)
  have seq: "(\<exists>e1 e2.
         map (\<lambda>ls'. failover_entries (trace (handle_lines cfg U w ls' s0))) (prefixes ls) =
           map (\<lambda>es. failover_entries (trace s0) @ es) [[], [], [], [], [e1], [e1], [e1, e2]] \<and>
         (if ALERT_COOLDOWN_SEC cfg \<le>
               clock w (clock_calls (handle_lines cfg U w (take 3 ls) s0)) -
               get_alert_time (handle_lines cfg U w (take 3 ls) s0) ''failover''
          then message_of e1 =
                 Some (FailoverMsg A B (release (extract_fields U (ls ! 3)))
                         (upstream_addr (extract_fields U (ls ! 3))))
          else e1 = FailoverCooldown) \<and>
         (if ALERT_COOLDOWN_SEC cfg \<le>
               clock w (clock_calls (handle_lines cfg U w (take 5 ls) s0)) -
               get_alert_time (handle_lines cfg U w (take 5 ls) s0) ''failover''
          then message_of e2 =
                 Some (FailoverMsg B A (release (extract_fields U (ls ! 5)))
                         (upstream_addr (extract_fields U (ls ! 5))))
          else e2 = FailoverCooldown)) \<and>
      map (\<lambda>ls'. last_seen_pool (handle_lines cfg U w ls' s0)) (prefixes ls) =
        [None, Some A, Some A, Some A, Some B, Some B, Some A]"
    if none: "last_seen_pool s0 = None" and ab: "A \<noteq> B"
      and pools: "map (\<lambda>l. pool (extract_fields U l)) ls = [A, A, A, B, B, A]"
  proof -
    from pools obtain l1 l2 l3 l4 l5 l6 where ls: "ls = [l1, l2, l3, l4, l5, l6]"
      and p1: "pool (extract_fields U l1) = A" and p2: "pool (extract_fields U l2) = A"
      and p3: "pool (extract_fields U l3) = A" and p4: "pool (extract_fields U l4) = B"
      and p5: "pool (extract_fields U l5) = B" and p6: "pool (extract_fields U l6) = A"
      by (auto simp add: map_eq_Cons_conv)
    define s1 where "s1 = handle_line cfg U w l1 s0"
    define s2 where "s2 = handle_line cfg U w l2 s1"
    define s3 where "s3 = handle_line cfg U w l3 s2"
    define s4 where "s4 = handle_line cfg U w l4 s3"
    define s5 where "s5 = handle_line cfg U w l5 s4"
    define s6 where "s6 = handle_line cfg U w l6 s5"
    define pass1 where "pass1 \<longleftrightarrow>
      ALERT_COOLDOWN_SEC cfg \<le> clock w (clock_calls s3) - get_alert_time s3 ''failover''"
    define pass2 where "pass2 \<longleftrightarrow>
      ALERT_COOLDOWN_SEC cfg \<le> clock w (clock_calls s5) - get_alert_time s5 ''failover''"
    define e1 where "e1 =
      (if pass1
       then outcome cfg w (FailoverMsg A B (release (extract_fields U l4))
              (upstream_addr (extract_fields U l4))) (trace s3)
       else FailoverCooldown)"
    define e2 where "e2 =
      (if pass2
       then outcome cfg w (FailoverMsg B A (release (extract_fields U l6))
              (upstream_addr (extract_fields U l6))) (trace s5)
       else FailoverCooldown)"
    let ?F = "\<lambda>s. failover_entries (trace s)"
    have t1: "?F s1 = ?F s0" and q1: "last_seen_pool s1 = Some A"
      using handle_record_first [OF none, of cfg w "extract_fields U l1"] p1
      by (simp_all add: s1_def handle_line_def)
    have t2: "?F s2 = ?F s0" and q2: "last_seen_pool s2 = Some A"
      using handle_record_same [of s1 "extract_fields U l2" cfg w] p2 q1 t1
      by (simp_all add: s2_def handle_line_def)
    have t3: "?F s3 = ?F s0" and q3: "last_seen_pool s3 = Some A"
      using handle_record_same [of s2 "extract_fields U l3" cfg w] p3 q2 t2
      by (simp_all add: s3_def handle_line_def)
    have ne4: "pool (extract_fields U l4) \<noteq> A" using p4 ab by simp
    have t4: "?F s4 = ?F s0 @ [e1]" and q4: "last_seen_pool s4 = Some B"
      using handle_record_change [OF q3 ne4, of cfg w] p4 t3
      by (simp_all add: s4_def handle_line_def e1_def pass1_def)
    have t5: "?F s5 = ?F s0 @ [e1]" and q5: "last_seen_pool s5 = Some B"
      using handle_record_same [of s4 "extract_fields U l5" cfg w] p5 q4 t4
      by (simp_all add: s5_def handle_line_def)
    have ne6: "pool (extract_fields U l6) \<noteq> B" using p6 ab by simp
    have t6: "?F s6 = ?F s0 @ [e1, e2]" and q6: "last_seen_pool s6 = Some A"
      using handle_record_change [OF q5 ne6, of cfg w] p6 t5
      by (simp_all add: s6_def handle_line_def e2_def pass2_def)
    have runs: "handle_lines cfg U w [] s0 = s0" "handle_lines cfg U w [l1] s0 = s1"
      "handle_lines cfg U w [l1, l2] s0 = s2" "handle_lines cfg U w [l1, l2, l3] s0 = s3"
      "handle_lines cfg U w [l1, l2, l3, l4] s0 = s4"
      "handle_lines cfg U w [l1, l2, l3, l4, l5] s0 = s5"
      "handle_lines cfg U w [l1, l2, l3, l4, l5, l6] s0 = s6"
      by (simp_all add: handle_lines_def s1_def s2_def s3_def s4_def s5_def s6_def)
    have tk: "take 3 ls = [l1, l2, l3]" "take 5 ls = [l1, l2, l3, l4, l5]"
      "ls ! 3 = l4" "ls ! 5 = l6"
      by (simp_all add: ls)
    have m1: "if pass1
          then message_of e1 =
                 Some (FailoverMsg A B (release (extract_fields U l4))
                         (upstream_addr (extract_fields U l4)))
          else e1 = FailoverCooldown"
      by (simp add: e1_def)
    have m2: "if pass2
          then message_of e2 =
                 Some (FailoverMsg B A (release (extract_fields U l6))
                         (upstream_addr (extract_fields U l6)))
          else e2 = FailoverCooldown"
      by (simp add: e2_def)
    have entries: "map (\<lambda>ls'. failover_entries (trace (handle_lines cfg U w ls' s0))) (prefixes ls) =
           map (\<lambda>es. failover_entries (trace s0) @ es) [[], [], [], [], [e1], [e1], [e1, e2]]"
      unfolding ls by (simp add: runs t1 t2 t3 t4 t5 t6)
    have tracked: "map (\<lambda>ls'. last_seen_pool (handle_lines cfg U w ls' s0)) (prefixes ls) =
        [None, Some A, Some A, Some A, Some B, Some B, Some A]"
      unfolding ls by (simp add: runs none q1 q2 q3 q4 q5 q6)
    from entries m1 m2 tracked show ?thesis
      unfolding tk runs pass1_def pass2_def by blast
  qed
  have c1: ?C1 by (rule impI) (rule first)
  have c2: ?C2 by (rule impI) (rule same)
  have c3: ?C3 by (intro impI, elim conjE) (rule change)
  have c4: ?C4 by (intro impI, elim conjE) (rule seq)
  show ?thesis by (rule conjI [OF c1 conjI [OF c2 conjI [OF c3 c4]]])
qed

theorem failover_events_for_pool_sequence_witness:
  "last_seen_pool (fresh_state 200) = None \<and> py ''blue'' \<noteq> py ''green'' \<and>
   map (\<lambda>l. pool (extract_fields ascii_ucd l))
     [line_blue, line_blue, line_blue, line_green, line_green, line_blue] =
     [py ''blue'', py ''blue'', py ''blue'', py ''green'', py ''green'', py ''blue''] \<and>
   last_seen_pool
     (handle_record default_cfg (ticking 1700000000 True) (extract_fields ascii_ucd line_blue)
        (fresh_state 200)) = Some (py ''blue'') \<and>
   map (\<lambda>ls'. last_seen_pool
                (handle_lines default_cfg ascii_ucd (ticking 1700000000 True) ls' (fresh_state 200)))
     (prefixes [line_blue, line_blue, line_blue, line_green, line_green, line_blue]) =
     [None, Some (py ''blue''), Some (py ''blue''), Some (py ''blue''),
      Some (py ''green''), Some (py ''green''), Some (py ''blue'')] \<and>
   (\<exists>e1 e2.
      failover_entries
        (trace (handle_lines default_cfg ascii_ucd (ticking 1700000000 True)
                  [line_blue, line_blue, line_blue, line_green, line_green, line_blue]
                  (fresh_state 200))) = [e1, e2])"
proof -
  let ?ls = "[line_blue, line_blue, line_blue, line_green, line_green, line_blue]"
  let ?w = "ticking 1700000000 True"
  have none: "last_seen_pool (fresh_state 200) = None" by (simp add: fresh_state_def)
  have ab: "py ''blue'' \<noteq> py ''green''" by (simp add: py_def)
  have pools: "map (\<lambda>l. pool (extract_fields ascii_ucd l)) ?ls =
     [py ''blue'', py ''blue'', py ''blue'', py ''green'', py ''green'', py ''blue'']"
    by (simp add: extract_line_blue extract_line_green)
  have base: "failover_entries (trace (fresh_state 200)) = []"
    by (simp add: fresh_state_def failover_entries_def)
  note inst = failover_events_for_pool_sequence [where s = "fresh_state 200" and cfg = default_cfg
      and w = ?w and r = "extract_fields ascii_ucd line_blue" and p = "py ''green''"
      and ?s0.0 = "fresh_state 200" and A = "py ''blue''" and B = "py ''green''"
      and U = ascii_ucd and ls = ?ls]
  from inst none have one: "last_seen_pool
     (handle_record default_cfg ?w (extract_fields ascii_ucd line_blue) (fresh_state 200)) =
     Some (py ''blue'')"
    by (simp add: extract_line_blue)
  from inst none ab pools
  have tracked: "map (\<lambda>ls'. last_seen_pool
                (handle_lines default_cfg ascii_ucd ?w ls' (fresh_state 200))) (prefixes ?ls) =
     [None, Some (py ''blue''), Some (py ''blue''), Some (py ''blue''),
      Some (py ''green''), Some (py ''green''), Some (py ''blue'')]"
    by blast
  from inst none ab pools
  obtain e1 e2 where
    "map (\<lambda>ls'. failover_entries (trace (handle_lines default_cfg ascii_ucd ?w ls' (fresh_state 200))))
       (prefixes ?ls) =
     map (\<lambda>es. failover_entries (trace (fresh_state 200)) @ es)
       [[], [], [], [], [e1], [e1], [e1, e2]]"
    by blast
  then have "failover_entries (trace (handle_lines default_cfg ascii_ucd ?w ?ls (fresh_state 200))) =
       [e1, e2]"
    unfolding base by simp
  then have two: "\<exists>e1 e2.
      failover_entries (trace (handle_lines default_cfg ascii_ucd ?w ?ls (fresh_state 200))) =
        [e1, e2]"
    by blast
  from none ab pools one tracked two show ?thesis by (intro conjI)
qed

subsection \<open>Field extraction\<close>

lemma search_token_absent:
  "\<not> sublist key line \<Longrightarrow> search_token U key line = None"
proof (induction line)
  case Nil
  show ?case by simp
next
  case (Cons c cs)
  from Cons.prems have "\<not> prefix key (c # cs)" and "\<not> sublist key cs"
    by (simp_all add: sublist_Cons_right)
  with Cons.IH show ?case by simp
qed

lemma RE_STATUS_Cons:
  "RE_STATUS U (x # xs) =
     (if status_token_at U (x # xs) 0 then Some (take 3 xs) else RE_STATUS U xs)"
  by (cases "(U, x # xs)" rule: RE_STATUS.cases) (auto simp add: status_token_at_def)

lemma status_token_at_Suc: "status_token_at U (x # xs) (Suc i) = status_token_at U xs i"
  by (simp add: status_token_at_def)

lemma RE_STATUS_absent:
  "(\<forall>i. \<not> status_token_at U line i) \<Longrightarrow> RE_STATUS U line = None"
proof (induction line)
  case Nil
  show ?case by simp
next
  case (Cons x xs)
  from Cons.prems have "\<not> status_token_at U (x # xs) 0" by blast
  moreover from Cons.prems have "\<forall>i. \<not> status_token_at U xs i"
    using status_token_at_Suc [of U x xs] by blast
  ultimately show ?case using Cons.IH by (simp add: RE_STATUS_Cons)
qed

lemma RE_STATUS_first:
  "status_token_at U line i \<Longrightarrow> (\<forall>j<i. \<not> status_token_at U line j) \<Longrightarrow>
   RE_STATUS U line = Some (take 3 (drop (Suc i) line))"
proof (induction line arbitrary: i)
  case Nil
  then show ?case by (simp add: status_token_at_def)
next
  case (Cons x xs)
  show ?case
  proof (cases i)
    case 0
    with Cons.prems show ?thesis by (simp add: RE_STATUS_Cons)
  next
    case (Suc k)
    with Cons.prems have no: "\<not> status_token_at U (x # xs) 0" by blast
    from Suc Cons.prems have tok: "status_token_at U xs k"
      by (simp add: status_token_at_Suc)
    have "\<forall>j<k. \<not> status_token_at U xs j"
    proof (intro allI impI)
      fix j assume "j < k"
      then have "Suc j < i" using Suc by simp
      with Cons.prems have "\<not> status_token_at U (x # xs) (Suc j)" by blast
      then show "\<not> status_token_at U xs j" by (simp add: status_token_at_Suc)
    qed
    with tok have "RE_STATUS U xs = Some (take 3 (drop (Suc k) xs))" by (rule Cons.IH)
    with no Suc show ?thesis by (simp add: RE_STATUS_Cons)
  qed
qed

text \<open>What \<open>RE_STATUS\<close> captures is three decimal digits, which \<^verbatim>\<open>int\<close> accepts.\<close>

lemma RE_STATUS_digits:
  "RE_STATUS U line = Some g \<Longrightarrow>
   \<exists>b c d. g = [b, c, d] \<and> isdigit U b \<and> isdigit U c \<and> isdigit U d"
proof (induction U line rule: RE_STATUS.induct)
  case (1 U a b c d e rest)
  then show ?case by (auto split: if_splits)
qed simp_all

lemma py_int_digits:
  assumes "isdigit U b" and "isdigit U c" and "isdigit U d"
  shows "\<exists>v. py_int U [b, c, d] = Inr v \<and> 0 \<le> v"
proof -
  from assms obtain x y z where "decimal U b = Some x" "decimal U c = Some y" "decimal U d = Some z"
    by (auto simp add: isdigit_def)
  then show ?thesis by (simp add: py_int_def)
qed

lemma py_int_599: "py_int U (py ''599'') = Inr 599"
  by (simp add: py_int_def py_def decimal_def)

lemma no_digit_no_status_token:
  assumes "\<not> list_ex (isdigit U) line"
  shows "\<not> status_token_at U line i"
proof
  assume "status_token_at U line i"
  then obtain a b rest where d: "drop i line = a # b # rest" and "isdigit U b"
    by (auto simp add: status_token_at_def split: list.splits)
  from d have "b \<in> set (drop i line)" by simp
  then have "b \<in> set line" by (rule in_set_dropD)
  with \<open>isdigit U b\<close> assms show False by (auto simp add: list_ex_iff)
qed

text \<open>
  Claim C8. The extraction is a total function of the line: it returns a record for every
  text. Its one operation that can raise, \<^verbatim>\<open>int\<close>, never does so on what the status
  pattern captured. A line without \<^verbatim>\<open>pool=\<close> gives the pool \<^verbatim>\<open>unknown\<close>, likewise for the
  release; a line without a status token (three digits between white space) gives the status
  0; a line without \<^verbatim>\<open>upstream_status=\<close> or \<^verbatim>\<open>upstream_addr=\<close> gives the empty string; and a
  line whose first status token is \<^verbatim>\<open>599\<close> gives the status 599, which the error rate counts
  as an error.
\<close>

theorem extract_fields_defaults:
  "(\<not> sublist (py ''pool='') line \<longrightarrow> pool (extract_fields U line) = py ''unknown'') \<and>
   (\<not> sublist (py ''release='') line \<longrightarrow> release (extract_fields U line) = py ''unknown'') \<and>
   ((\<forall>i. \<not> status_token_at U line i) \<longrightarrow> status (extract_fields U line) = 0) \<and>
   (\<not> sublist (py ''upstream_status='') line \<longrightarrow> upstream_status (extract_fields U line) = []) \<and>
   (\<not> sublist (py ''upstream_addr='') line \<longrightarrow> upstream_addr (extract_fields U line) = []) \<and>
   (status_token_at U line i \<and> (\<forall>j<i. \<not> status_token_at U line j) \<and>
    take 3 (drop (Suc i) line) = py ''599'' \<longrightarrow>
      status (extract_fields U line) = 599 \<and>
      filter (\<lambda>x. 500 \<le> x \<and> x < 600) [status (extract_fields U line)] = [599]) \<and>
   (\<forall>g. RE_STATUS U line = Some g \<longrightarrow>
      (\<exists>v. py_int U g = Inr v \<and> 0 \<le> v \<and> status (extract_fields U line) = v))"
  (is "?P \<and> ?R \<and> ?S \<and> ?US \<and> ?UA \<and> ?T \<and> ?I")
proof -
  have p: ?P by (simp add: extract_fields_def RE_POOL_def search_token_absent)
  have r: ?R by (simp add: extract_fields_def RE_RELEASE_def search_token_absent)
  have s: ?S by (simp add: extract_fields_def RE_STATUS_absent)
  have us: ?US by (simp add: extract_fields_def RE_UPSTREAM_STATUS_def search_token_absent)
  have ua: ?UA by (simp add: extract_fields_def RE_UPSTREAM_ADDR_def search_token_absent)
  have t: ?T
  proof (intro impI, elim conjE)
    assume "status_token_at U line i" and "\<forall>j<i. \<not> status_token_at U line j"
      and "take 3 (drop (Suc i) line) = py ''599''"
    then have "RE_STATUS U line = Some (py ''599'')"
      using RE_STATUS_first [of U line i] by simp
    then have "status (extract_fields U line) = 599"
      by (simp add: extract_fields_def py_int_599)
    then show "status (extract_fields U line) = 599 \<and>
      filter (\<lambda>x. 500 \<le> x \<and> x < 600) [status (extract_fields U line)] = [599]"
      by simp
  qed
  have i: ?I
  proof (intro allI impI)
    fix g assume g: "RE_STATUS U line = Some g"
    then obtain b c d where "g = [b, c, d]" "isdigit U b" "isdigit U c" "isdigit U d"
      using RE_STATUS_digits by blast
    then obtain v where "py_int U g = Inr v" "0 \<le> v"
      using py_int_digits by blast
    with g show "\<exists>v. py_int U g = Inr v \<and> 0 \<le> v \<and> status (extract_fields U line) = v"
      by (simp add: extract_fields_def)
  qed
  show ?thesis by (rule conjI [OF p conjI [OF r conjI [OF s conjI [OF us conjI [OF ua conjI [OF t i]]]]]])
qed

lemma line_noise_bare:
  "\<not> sublist (py ''pool='') line_noise" "\<not> sublist (py ''release='') line_noise"
  "\<not> sublist (py ''upstream_status='') line_noise" "\<not> sublist (py ''upstream_addr='') line_noise"
  "\<not> list_ex (isdigit ascii_ucd) line_noise"
  by code_simp+

lemma line_599_token:
  "status_token_at ascii_ucd line_599 21"
  "list_all (\<lambda>j. \<not> status_token_at ascii_ucd line_599 j) [0..<21]"
  "take 3 (drop (Suc 21) line_599) = py ''599''"
  "RE_STATUS ascii_ucd line_599 = Some (py ''599'')"
  by code_simp+

theorem extract_fields_defaults_witness:
  "\<not> sublist (py ''pool='') line_noise \<and> \<not> sublist (py ''release='') line_noise \<and>
   \<not> list_ex (isdigit ascii_ucd) line_noise \<and>
   \<not> sublist (py ''upstream_status='') line_noise \<and>
   \<not> sublist (py ''upstream_addr='') line_noise \<and>
   extract_fields ascii_ucd line_noise =
     \<lparr>pool = py ''unknown'', release = py ''unknown'', status = 0,
      upstream_status = [], upstream_addr = []\<rparr> \<and>
   status_token_at ascii_ucd line_599 21 \<and>
   list_all (\<lambda>j. \<not> status_token_at ascii_ucd line_599 j) [0..<21] \<and>
   take 3 (drop (Suc 21) line_599) = py ''599'' \<and>
   status (extract_fields ascii_ucd line_599) = 599 \<and>
   RE_STATUS ascii_ucd line_599 = Some (py ''599'') \<and>
   py_int ascii_ucd (py ''599'') = Inr 599"
proof -
  have nt: "\<forall>i. \<not> status_token_at ascii_ucd line_noise i"
    using line_noise_bare(5) by (simp add: no_digit_no_status_token)
  have before: "\<forall>j<21. \<not> status_token_at ascii_ucd line_599 j"
    using line_599_token(2) by (simp add: list_all_iff)
  note noise = extract_fields_defaults [of line_noise ascii_ucd 0]
  note tok = extract_fields_defaults [of line_599 ascii_ucd 21]
  from noise line_noise_bare nt
  have f: "pool (extract_fields ascii_ucd line_noise) = py ''unknown''"
    "release (extract_fields ascii_ucd line_noise) = py ''unknown''"
    "status (extract_fields ascii_ucd line_noise) = 0"
    "upstream_status (extract_fields ascii_ucd line_noise) = []"
    "upstream_addr (extract_fields ascii_ucd line_noise) = []"
    by blast+
  have rec: "extract_fields ascii_ucd line_noise =
     \<lparr>pool = py ''unknown'', release = py ''unknown'', status = 0,
      upstream_status = [], upstream_addr = []\<rparr>"
    using f by (cases "extract_fields ascii_ucd line_noise") simp
  from tok line_599_token(1,3) before
  have st: "status (extract_fields ascii_ucd line_599) = 599" by blast
  from tok line_599_token(4)
  have "\<exists>v. py_int ascii_ucd (py ''599'') = Inr v \<and> 0 \<le> v \<and>
          status (extract_fields ascii_ucd line_599) = v"
    by blast
  with st have pi: "py_int ascii_ucd (py ''599'') = Inr 599" by auto
  from line_noise_bare rec line_599_token st pi
  show ?thesis by (intro conjI)
qed

subsection \<open>A first line without a pool\<close>

lemma pool_absent:
  "\<not> sublist (py ''pool='') line \<Longrightarrow> pool (extract_fields U line) = py ''unknown''"
  by (simp add: extract_fields_def RE_POOL_def search_token_absent)

lemma handle_lines_unknown:
  assumes "list_all (\<lambda>l. \<not> sublist (py ''pool='') l) ls"
    and "last_seen_pool s = Some (py ''unknown'')"
  shows "last_seen_pool (handle_lines cfg U w ls s) = Some (py ''unknown'') \<and>
         failover_entries (trace (handle_lines cfg U w ls s)) = failover_entries (trace s)"
  using assms
proof (induction ls arbitrary: s)
  case Nil
  then show ?case by (simp add: handle_lines_def)
next
  case (Cons l ls)
  from Cons.prems have l: "pool (extract_fields U l) = py ''unknown''"
    and rest: "list_all (\<lambda>l. \<not> sublist (py ''pool='') l) ls"
    by (simp_all add: pool_absent)
  let ?s = "handle_line cfg U w l s"
  from Cons.prems(2) l have same: "last_seen_pool s = Some (pool (extract_fields U l))" by simp
  have a: "last_seen_pool ?s = Some (py ''unknown'')"
    and b: "failover_entries (trace ?s) = failover_entries (trace s)"
    using handle_record_same [OF same, of cfg w] l by (simp_all add: handle_line_def)
  have "handle_lines cfg U w (l # ls) s = handle_lines cfg U w ls ?s"
    by (simp add: handle_lines_def)
  with Cons.IH [OF rest a] b show ?case by simp
qed

text \<open>
  Claim C10. When the first handled line has no \<^verbatim>\<open>pool=\<close>, the tracked pool becomes the
  default \<^verbatim>\<open>unknown\<close>. It stays so over further lines without \<^verbatim>\<open>pool=\<close>, and the next line
  whose pool is a real label then counts as a pool flip: it adds one failover event, from
  \<^verbatim>\<open>unknown\<close> to that pool (the alert, or the cooldown notice when inside the cooldown).
\<close>

theorem unknown_pool_then_failover:
  "(last_seen_pool s = None \<and> \<not> sublist (py ''pool='') line \<longrightarrow>
      last_seen_pool (handle_line cfg U w line s) = Some (py ''unknown'') \<and>
      failover_entries (trace (handle_line cfg U w line s)) = failover_entries (trace s)) \<and>
   (last_seen_pool s = Some (py ''unknown'') \<and> pool (extract_fields U line) \<noteq> py ''unknown'' \<longrightarrow>
      (\<exists>e. failover_entries (trace (handle_line cfg U w line s)) =
             failover_entries (trace s) @ [e] \<and>
           (if ALERT_COOLDOWN_SEC cfg \<le> clock w (clock_calls s) - get_alert_time s ''failover''
            then message_of e =
                   Some (FailoverMsg (py ''unknown'') (pool (extract_fields U line))
                           (release (extract_fields U line))
                           (upstream_addr (extract_fields U line)))
            else e = FailoverCooldown)) \<and>
      last_seen_pool (handle_line cfg U w line s) = Some (pool (extract_fields U line))) \<and>
   (last_seen_pool s0 = None \<and> \<not> sublist (py ''pool='') l1 \<and>
    list_all (\<lambda>l. \<not> sublist (py ''pool='') l) mids \<and>
    pool (extract_fields U l2) \<noteq> py ''unknown'' \<longrightarrow>
      (\<exists>e. failover_entries (trace (handle_lines cfg U w (l1 # mids @ [l2]) s0)) =
             failover_entries (trace s0) @ [e] \<and>
           (e = FailoverCooldown \<or>
            message_of e =
              Some (FailoverMsg (py ''unknown'') (pool (extract_fields U l2))
                      (release (extract_fields U l2)) (upstream_addr (extract_fields U l2))))))"
  (is "?C1 \<and> ?C2 \<and> ?C3")
proof -
  have first: "last_seen_pool (handle_line cfg U w line s) = Some (py ''unknown'') \<and>
      failover_entries (trace (handle_line cfg U w line s)) = failover_entries (trace s)"
    if "last_seen_pool s = None" "\<not> sublist (py ''pool='') line" for s line
    using handle_record_first [OF that(1), of cfg w "extract_fields U line"] pool_absent [OF that(2)]
    by (simp add: handle_line_def)
  have flip: "(\<exists>e. failover_entries (trace (handle_line cfg U w line s)) =
             failover_entries (trace s) @ [e] \<and>
           (if ALERT_COOLDOWN_SEC cfg \<le> clock w (clock_calls s) - get_alert_time s ''failover''
            then message_of e =
                   Some (FailoverMsg (py ''unknown'') (pool (extract_fields U line))
                           (release (extract_fields U line))
                           (upstream_addr (extract_fields U line)))
            else e = FailoverCooldown)) \<and>
      last_seen_pool (handle_line cfg U w line s) = Some (pool (extract_fields U line))"
    if "last_seen_pool s = Some (py ''unknown'')" "pool (extract_fields U line) \<noteq> py ''unknown''"
    for s line
    using handle_record_change [OF that, of cfg w]
    by (simp add: handle_line_def message_of_outcome)
  have seq: "\<exists>e. failover_entries (trace (handle_lines cfg U w (l1 # mids @ [l2]) s0)) =
             failover_entries (trace s0) @ [e] \<and>
           (e = FailoverCooldown \<or>
            message_of e =
              Some (FailoverMsg (py ''unknown'') (pool (extract_fields U l2))
                      (release (extract_fields U l2)) (upstream_addr (extract_fields U l2))))"
    if none: "last_seen_pool s0 = None" and l1: "\<not> sublist (py ''pool='') l1"
      and mids: "list_all (\<lambda>l. \<not> sublist (py ''pool='') l) mids"
      and l2: "pool (extract_fields U l2) \<noteq> py ''unknown''"
  proof -
    let ?s1 = "handle_line cfg U w l1 s0"
    let ?sm = "handle_lines cfg U w mids ?s1"
    from first [OF none l1] have u1: "last_seen_pool ?s1 = Some (py ''unknown'')"
      and t1: "failover_entries (trace ?s1) = failover_entries (trace s0)" by simp_all
    from handle_lines_unknown [OF mids u1, of cfg U w]
    have um: "last_seen_pool ?sm = Some (py ''unknown'')"
      and tm: "failover_entries (trace ?sm) = failover_entries (trace s0)"
      using t1 by simp_all
    have run: "handle_lines cfg U w (l1 # mids @ [l2]) s0 = handle_line cfg U w l2 ?sm"
      by (simp add: handle_lines_def)
    from flip [OF um l2] obtain e where
      e: "failover_entries (trace (handle_line cfg U w l2 ?sm)) = failover_entries (trace ?sm) @ [e]"
      and alt: "if ALERT_COOLDOWN_SEC cfg \<le> clock w (clock_calls ?sm) - get_alert_time ?sm ''failover''
            then message_of e =
                   Some (FailoverMsg (py ''unknown'') (pool (extract_fields U l2))
                           (release (extract_fields U l2))
                           (upstream_addr (extract_fields U l2)))
            else e = FailoverCooldown"
      by blast
    from alt have "e = FailoverCooldown \<or>
            message_of e =
              Some (FailoverMsg (py ''unknown'') (pool (extract_fields U l2))
                      (release (extract_fields U l2)) (upstream_addr (extract_fields U l2)))"
      by (auto split: if_splits)
    with e show ?thesis unfolding run tm by blast
  qed
  have c1: ?C1 by (intro impI, elim conjE) (rule first)
  have c2: ?C2 by (intro impI, elim conjE) (rule flip)
  have c3: ?C3 by (intro impI, elim conjE) (rule seq)
  show ?thesis by (rule conjI [OF c1 conjI [OF c2 c3]])
qed

theorem unknown_pool_then_failover_witness:
  "last_seen_pool (fresh_state 200) = None \<and> \<not> sublist (py ''pool='') line_noise \<and>
   last_seen_pool
     (handle_line default_cfg ascii_ucd (ticking 1700000000 True) line_noise (fresh_state 200)) =
     Some (py ''unknown'') \<and>
   pool (extract_fields ascii_ucd line_blue) = py ''blue'' \<and> py ''blue'' \<noteq> py ''unknown'' \<and>
   list_all (\<lambda>l. \<not> sublist (py ''pool='') l) [line_noise, line_noise] \<and>
   (\<exists>e. failover_entries
          (trace (handle_lines default_cfg ascii_ucd (ticking 1700000000 True)
                    (line_noise # [line_noise, line_noise] @ [line_blue]) (fresh_state 200))) = [e] \<and>
        (e = FailoverCooldown \<or>
         message_of e =
           Some (FailoverMsg (py ''unknown'') (py ''blue'') (py ''v1'') (py ''10.0.1.2:3000''))))"
proof -
  let ?w = "ticking 1700000000 True"
  have none: "last_seen_pool (fresh_state 200) = None" by (simp add: fresh_state_def)
  have base: "failover_entries (trace (fresh_state 200)) = []"
    by (simp add: fresh_state_def failover_entries_def)
  have noise: "\<not> sublist (py ''pool='') line_noise" by (rule line_noise_bare(1))
  have mids: "list_all (\<lambda>l. \<not> sublist (py ''pool='') l) [line_noise, line_noise]"
    using noise by simp
  have blue: "pool (extract_fields ascii_ucd line_blue) = py ''blue''"
    by (simp add: extract_line_blue)
  have ne: "py ''blue'' \<noteq> py ''unknown''" by (simp add: py_def)
  note inst = unknown_pool_then_failover [where s = "fresh_state 200" and line = line_noise
      and cfg = default_cfg and U = ascii_ucd and w = ?w and ?s0.0 = "fresh_state 200"
      and ?l1.0 = line_noise and mids = "[line_noise, line_noise]" and ?l2.0 = line_blue]
  from inst none noise
  have tracked: "last_seen_pool (handle_line default_cfg ascii_ucd ?w line_noise (fresh_state 200)) =
     Some (py ''unknown'')"
    by blast
  from inst none noise mids blue ne
  have "\<exists>e. failover_entries
          (trace (handle_lines default_cfg ascii_ucd ?w
                    (line_noise # [line_noise, line_noise] @ [line_blue]) (fresh_state 200))) =
          failover_entries (trace (fresh_state 200)) @ [e] \<and>
        (e = FailoverCooldown \<or>
         message_of e =
           Some (FailoverMsg (py ''unknown'') (pool (extract_fields ascii_ucd line_blue))
                   (release (extract_fields ascii_ucd line_blue))
                   (upstream_addr (extract_fields ascii_ucd line_blue))))"
    by simp
  then have ev: "\<exists>e. failover_entries
          (trace (handle_lines default_cfg ascii_ucd ?w
                    (line_noise # [line_noise, line_noise] @ [line_blue]) (fresh_state 200))) = [e] \<and>
        (e = FailoverCooldown \<or>
         message_of e =
           Some (FailoverMsg (py ''unknown'') (py ''blue'') (py ''v1'') (py ''10.0.1.2:3000'')))"
    unfolding base by (simp add: extract_line_blue)
  from none noise tracked blue ne mids ev show ?thesis by (intro conjI)
qed

end
